theory Spec2Isabelle
  imports Main "HOL-Library.Sublist" "HOL-Library.Multiset"
begin

section \<open>Data model (models.py)\<close>

text \<open>
  Each mapped class of \<^verbatim>\<open>models.py\<close> is a record of its columns. Identifiers are
  Python integers; strings are \<open>string\<close>; \<open>created_at\<close> is the UTC clock reading
  taken when the row is inserted, kept as an integer number of ticks (its
  \<^verbatim>\<open>isoformat()\<close> rendering is an injective image of it and is not modelled).
\<close>

record user =
  user_id :: int
  username :: string
  password_hash :: string
  role :: string

record patient =
  patient_id :: int
  patient_name :: string
  file_number :: string

record drug =
  drug_id :: int
  drug_name :: string
  strength :: string
  instructions :: string
  warnings :: string

record prescription =
  prescription_id :: int
  p_patient_id :: int
  p_doctor_id :: int
  status :: string
  created_at :: int

text \<open>
  The persistent store (SQLite): one list of rows per table, in insertion order, and the
  join table \<^verbatim>\<open>prescription_drug_association\<close> as a list of
  \<open>(prescription_id, drug_id)\<close> rows. A scan of a table with an integer primary key
  returns its rows in this order, which is the order of their keys. The join table is
  read only through the relationships below.
\<close>

record database =
  users :: "user list"
  patients :: "patient list"
  drugs :: "drug list"
  prescriptions :: "prescription list"
  prescription_drug_association :: "(int \<times> int) list"

text \<open>
  The constraints the schema declares: primary keys (\<^verbatim>\<open>id\<close> of each table, and the
  composite key of the join table, both of whose columns carry
  \<^verbatim>\<open>primary_key=True\<close>), the \<^verbatim>\<open>unique=True\<close> columns, and the foreign keys.
\<close>

definition wf_db :: "database \<Rightarrow> bool" where
  "wf_db s \<longleftrightarrow>
     distinct (map user_id (users s)) \<and>
     distinct (map username (users s)) \<and>
     distinct (map patient_id (patients s)) \<and>
     distinct (map file_number (patients s)) \<and>
     distinct (map drug_id (drugs s)) \<and>
     distinct (map prescription_id (prescriptions s)) \<and>
     distinct (prescription_drug_association s) \<and>
     list_all (\<lambda>p. p_patient_id p \<in> set (map patient_id (patients s)) \<and>
                    p_doctor_id p \<in> set (map user_id (users s))) (prescriptions s) \<and>
     list_all (\<lambda>(pid, did). pid \<in> set (map prescription_id (prescriptions s)) \<and>
                            did \<in> set (map drug_id (drugs s)))
              (prescription_drug_association s)"

section \<open>Responses\<close>

text \<open>
  One constructor per error response of \<^verbatim>\<open>app.py\<close>, with its HTTP status.
  \<open>UnhandledException\<close> is the answer Flask gives when a handler raises an exception
  that it does not catch.
\<close>

datatype error =
    BodyNotJSON
  | MissingFields
  | DrugsNotList
  | UnauthorizedDoctor
  | PatientPersistenceError
  | DrugIdRequired
  | DrugNotFound int
  | NoValidDrugs
  | PrescriptionPersistenceError
  | NotFound
  | StatusRequired
  | DrugFieldsMissing
  | UnhandledException

fun http_status :: "error \<Rightarrow> nat" where
  "http_status BodyNotJSON = 400"
| "http_status MissingFields = 400"
| "http_status DrugsNotList = 400"
| "http_status UnauthorizedDoctor = 403"
| "http_status PatientPersistenceError = 500"
| "http_status DrugIdRequired = 400"
| "http_status (DrugNotFound i) = 400"
| "http_status NoValidDrugs = 400"
| "http_status PrescriptionPersistenceError = 500"
| "http_status NotFound = 404"
| "http_status StatusRequired = 400"
| "http_status DrugFieldsMissing = 400"
| "http_status UnhandledException = 500"

section \<open>Tables, queries and relationships\<close>

text \<open>
  The rows of a table under a key: the doctor with a given id, the drug with a given id,
  the prescription with a given id. These read the stored rows; they are what a
  \<^verbatim>\<open>SELECT\<close> finds once it runs.
\<close>

definition find_doctor :: "database \<Rightarrow> int \<Rightarrow> user option" where
  "find_doctor s doctor_id =
     find (\<lambda>u. user_id u = doctor_id \<and> role u = ''doctor'') (users s)"

definition find_drug :: "database \<Rightarrow> int \<Rightarrow> drug option" where
  "find_drug s i = find (\<lambda>d. drug_id d = i) (drugs s)"

definition get_prescription_row :: "database \<Rightarrow> int \<Rightarrow> prescription option" where
  "get_prescription_row s i = find (\<lambda>p. prescription_id p = i) (prescriptions s)"

text \<open>
  An identifier of a request is a Python integer of any size. Bound as a parameter of a
  statement it must fit SQLite's signed 64-bit \<^verbatim>\<open>INTEGER\<close>; otherwise the driver
  raises \<^verbatim>\<open>OverflowError\<close> before the statement runs. None of the handlers catches
  it where they query by identifier.
\<close>

definition int64 :: "int \<Rightarrow> bool" where
  "int64 i \<longleftrightarrow> - (2 ^ 63) \<le> i \<and> i < 2 ^ 63"

text \<open>\<^verbatim>\<open>User.query.filter_by(id=doctor_id, role='doctor').first()\<close>\<close>

definition query_doctor :: "database \<Rightarrow> int \<Rightarrow> error + user option" where
  "query_doctor s doctor_id =
     (if int64 doctor_id then Inr (find_doctor s doctor_id) else Inl UnhandledException)"

text \<open>\<^verbatim>\<open>Patient.query.filter_by(file_number=patient_file_number).first()\<close>\<close>

definition query_patient :: "database \<Rightarrow> string \<Rightarrow> patient option" where
  "query_patient s fnum = find (\<lambda>p. file_number p = fnum) (patients s)"

text \<open>\<^verbatim>\<open>Drug.query.get(drug_id)\<close>\<close>

definition query_drug :: "database \<Rightarrow> int \<Rightarrow> error + drug option" where
  "query_drug s i = (if int64 i then Inr (find_drug s i) else Inl UnhandledException)"

text \<open>\<^verbatim>\<open>Prescription.query.get(prescription_id)\<close>\<close>

definition query_prescription :: "database \<Rightarrow> int \<Rightarrow> error + prescription option" where
  "query_prescription s i =
     (if int64 i then Inr (get_prescription_row s i) else Inl UnhandledException)"

text \<open>The many-to-one relationships \<^verbatim>\<open>prescription.patient\<close> and \<^verbatim>\<open>prescription.doctor\<close>.\<close>

definition rel_patient :: "database \<Rightarrow> prescription \<Rightarrow> patient option" where
  "rel_patient s p = find (\<lambda>q. patient_id q = p_patient_id p) (patients s)"

definition rel_doctor :: "database \<Rightarrow> prescription \<Rightarrow> user option" where
  "rel_doctor s p = find (\<lambda>u. user_id u = p_doctor_id p) (users s)"

text \<open>
  The many-to-many relationship \<^verbatim>\<open>prescription.prescribed_drugs\<close> is declared
  without \<^verbatim>\<open>order_by\<close>. Its load selects the join rows of the prescription through
  the index of the composite primary key \<open>(prescription_id, drug_id)\<close>, the only index
  of the join table, and so yields the drugs in ascending order of drug id, whatever
  the order in which the rows were written.
\<close>

definition prescribed_drugs :: "database \<Rightarrow> prescription \<Rightarrow> drug list" where
  "prescribed_drugs s p =
     concat (map (\<lambda>(pid, did). case find_drug s did of Some d \<Rightarrow> [d] | None \<Rightarrow> [])
                 (sort_key snd
                    (filter (\<lambda>(pid, did). pid = prescription_id p)
                       (prescription_drug_association s))))"

text \<open>
  The back reference \<^verbatim>\<open>drug.prescriptions\<close>: the inner join of the join table's rows
  for the drug with the prescriptions. \<^verbatim>\<open>app.py\<close> reads only its length.
\<close>

definition drug_prescriptions :: "database \<Rightarrow> drug \<Rightarrow> prescription list" where
  "drug_prescriptions s d =
     concat (map (\<lambda>(pid, did).
                    if did = drug_id d
                    then (case get_prescription_row s pid of Some p \<Rightarrow> [p] | None \<Rightarrow> [])
                    else [])
                 (prescription_drug_association s))"

section \<open>Inserting rows\<close>

text \<open>
  An \<^verbatim>\<open>INTEGER PRIMARY KEY\<close> that the insert leaves out is given one more than the
  largest key in the table, and 1 in an empty table.
\<close>

definition next_id :: "int list \<Rightarrow> int" where
  "next_id ids = (case ids of [] \<Rightarrow> 1 | x # xs \<Rightarrow> fold max xs x + 1)"

text \<open>
  \<^verbatim>\<open>db.session.add(patient); db.session.commit()\<close>. The commit raises when the
  unique constraint on \<^verbatim>\<open>file_number\<close> is violated; the handler rolls back.
\<close>

definition new_patient :: "database \<Rightarrow> string \<Rightarrow> string \<Rightarrow> patient" where
  "new_patient s pname fnum =
     \<lparr>patient_id = next_id (map patient_id (patients s)), patient_name = pname,
      file_number = fnum\<rparr>"

definition insert_patient :: "database \<Rightarrow> string \<Rightarrow> string \<Rightarrow> (patient \<times> database) option" where
  "insert_patient s pname fnum =
     (if fnum \<in> set (map file_number (patients s)) then None
      else
        let p = new_patient s pname fnum
        in Some (p, s\<lparr>patients := patients s @ [p]\<rparr>))"

text \<open>
  \<^verbatim>\<open>db.session.add(new_prescription); db.session.commit()\<close>: one row in
  \<^verbatim>\<open>prescriptions\<close> with the column defaults (\<^verbatim>\<open>status='pending'\<close>,
  \<^verbatim>\<open>created_at=utcnow\<close>) and the join-table rows of
  \<^verbatim>\<open>new_prescription.prescribed_drugs\<close>. The flush writes one join row per drug of
  the collection: a drug appended more than once is written once, so a repeated drug
  id does not make the commit fail. The commit raises when a row of the join table
  with the same composite primary key \<open>(prescription_id, drug_id)\<close> is already stored;
  nothing of the transaction is kept then.
\<close>

definition insert_prescription ::
  "database \<Rightarrow> int \<Rightarrow> int \<Rightarrow> drug list \<Rightarrow> int \<Rightarrow> (prescription \<times> database) option" where
  "insert_prescription s pat doc ds now =
     (let new_id = next_id (map prescription_id (prescriptions s));
          rows = map (Pair new_id) (remdups (map drug_id ds));
          p = \<lparr>prescription_id = new_id, p_patient_id = pat, p_doctor_id = doc,
               status = ''pending'', created_at = now\<rparr>
      in if list_all (\<lambda>r. r \<notin> set (prescription_drug_association s)) rows
         then Some (p, s\<lparr>prescriptions := prescriptions s @ [p],
                         prescription_drug_association :=
                           prescription_drug_association s @ rows\<rparr>)
         else None)"

section \<open>Requests and views\<close>

text \<open>
  The JSON body of \<^verbatim>\<open>POST /prescriptions\<close>. \<^verbatim>\<open>data.get(k)\<close> is \<open>None\<close> for an
  absent key; each element of \<^verbatim>\<open>drugs\<close> is a dictionary whose \<^verbatim>\<open>drug_id\<close> may be
  absent too.
\<close>

record prescription_request =
  req_patient_name :: "string option"
  req_patient_file_number :: "string option"
  req_doctor_id :: "int option"
  req_drugs :: "int option list option"

text \<open>The JSON body of \<^verbatim>\<open>PUT /prescriptions/<id>/status\<close> and of \<^verbatim>\<open>POST /drugs\<close>.\<close>

record status_request =
  req_status :: "string option"

record drug_request =
  req_name :: "string option"
  req_strength :: "string option"
  req_instructions :: "string option"
  req_warnings :: "string option"

record created =
  c_prescription_id :: int
  c_status :: string
  c_created_at :: int

record prescription_view =
  v_id :: int
  v_patient :: patient
  v_doctor :: "int \<times> string"
  v_status :: string
  v_created_at :: int
  v_prescribed_drugs :: "drug list"

record status_view =
  sv_id :: int
  sv_patient_id :: int
  sv_doctor_id :: int
  sv_status :: string
  sv_created_at :: int
  sv_prescribed_drugs :: "drug list"

record notification =
  n_id :: int
  n_patient_name :: string
  n_created_at :: int

section \<open>The prescription engine (app.py)\<close>

text \<open>
  The drug validation loop of \<^verbatim>\<open>create_prescription\<close>: a falsy \<^verbatim>\<open>drug_id\<close> (absent
  or 0) and an unknown id both return at once, and an exception of the query ends the
  request; otherwise the drug is appended to \<^verbatim>\<open>prescribed_drugs_list\<close>.
\<close>

fun validate_drugs :: "database \<Rightarrow> int option list \<Rightarrow> drug list \<Rightarrow> error + drug list" where
  "validate_drugs s [] prescribed_drugs_list = Inr prescribed_drugs_list"
| "validate_drugs s (drug_info # rest) prescribed_drugs_list =
     (case drug_info of
        None \<Rightarrow> Inl DrugIdRequired
      | Some i \<Rightarrow>
          if i = 0 then Inl DrugIdRequired
          else (case query_drug s i of
                  Inl e \<Rightarrow> Inl e
                | Inr None \<Rightarrow> Inl (DrugNotFound i)
                | Inr (Some d) \<Rightarrow> validate_drugs s rest (prescribed_drugs_list @ [d])))"

text \<open>Find or create the patient; a new patient is committed at once.\<close>

definition find_or_create_patient ::
  "database \<Rightarrow> string \<Rightarrow> string \<Rightarrow> (patient \<times> database) option" where
  "find_or_create_patient s pname fnum =
     (case query_patient s fnum of
        Some p \<Rightarrow> Some (p, s)
      | None \<Rightarrow> insert_patient s pname fnum)"

text \<open>
  \<^verbatim>\<open>create_prescription\<close>. The argument \<open>now\<close> is the clock reading the column default
  takes at the insert; \<open>data = None\<close> is a missing or empty body.
\<close>

definition create_prescription ::
  "database \<Rightarrow> int \<Rightarrow> prescription_request option \<Rightarrow> (error + created) \<times> database" where
  "create_prescription s now data =
     (case data of
        None \<Rightarrow> (Inl BodyNotJSON, s)
      | Some req \<Rightarrow>
         (case (req_patient_name req, req_patient_file_number req,
                req_doctor_id req, req_drugs req) of
            (Some pname, Some fnum, Some doctor_id, Some drugs_data) \<Rightarrow>
              if pname = [] \<or> fnum = [] \<or> doctor_id = 0 \<or> drugs_data = []
              then (Inl MissingFields, s)
              else if drugs_data = [] then (Inl DrugsNotList, s)
              else
               (case query_doctor s doctor_id of
                  Inl e \<Rightarrow> (Inl e, s)
                | Inr None \<Rightarrow> (Inl UnauthorizedDoctor, s)
                | Inr (Some doctor) \<Rightarrow>
                   (case find_or_create_patient s pname fnum of
                      None \<Rightarrow> (Inl PatientPersistenceError, s)
                    | Some (pat, s1) \<Rightarrow>
                       (case validate_drugs s1 drugs_data [] of
                          Inl e \<Rightarrow> (Inl e, s1)
                        | Inr prescribed_drugs_list \<Rightarrow>
                            if prescribed_drugs_list = [] then (Inl NoValidDrugs, s1)
                            else
                             (case insert_prescription s1 (patient_id pat) (user_id doctor)
                                     prescribed_drugs_list now of
                                None \<Rightarrow> (Inl PrescriptionPersistenceError, s1)
                              | Some (new_prescription, s2) \<Rightarrow>
                                  (Inr \<lparr>c_prescription_id = prescription_id new_prescription,
                                        c_status = status new_prescription,
                                        c_created_at = created_at new_prescription\<rparr>, s2)))))
          | _ \<Rightarrow> (Inl MissingFields, s)))"

text \<open>
  \<^verbatim>\<open>get_prescription\<close>. Reading an attribute of a relationship that resolves to no
  row is an unhandled exception.
\<close>

definition get_prescription :: "database \<Rightarrow> int \<Rightarrow> error + prescription_view" where
  "get_prescription s pid =
     (case query_prescription s pid of
        Inl e \<Rightarrow> Inl e
      | Inr None \<Rightarrow> Inl NotFound
      | Inr (Some p) \<Rightarrow>
         (case (rel_patient s p, rel_doctor s p) of
            (Some pat, Some doc) \<Rightarrow>
              Inr \<lparr>v_id = prescription_id p, v_patient = pat,
                   v_doctor = (user_id doc, username doc),
                   v_status = status p, v_created_at = created_at p,
                   v_prescribed_drugs = prescribed_drugs s p\<rparr>
          | _ \<Rightarrow> Inl UnhandledException))"

text \<open>
  \<^verbatim>\<open>update_prescription_status\<close>. The commit is
  \<^verbatim>\<open>UPDATE prescriptions SET status=? WHERE id=?\<close>; no constraint of the schema can
  reject it, so the handler of a failed commit has no branch here.
\<close>

definition set_status :: "database \<Rightarrow> int \<Rightarrow> string \<Rightarrow> database" where
  "set_status s pid new_status =
     s\<lparr>prescriptions :=
         map (\<lambda>q. if prescription_id q = pid then q\<lparr>status := new_status\<rparr> else q)
             (prescriptions s)\<rparr>"

definition update_prescription_status ::
  "database \<Rightarrow> int \<Rightarrow> status_request option \<Rightarrow> (error + status_view) \<times> database" where
  "update_prescription_status s pid data =
     (case data of
        None \<Rightarrow> (Inl BodyNotJSON, s)
      | Some req \<Rightarrow>
         (case req_status req of
            None \<Rightarrow> (Inl StatusRequired, s)
          | Some new_status \<Rightarrow>
              if new_status = [] then (Inl StatusRequired, s)
              else
               (case query_prescription s pid of
                  Inl e \<Rightarrow> (Inl e, s)
                | Inr None \<Rightarrow> (Inl NotFound, s)
                | Inr (Some p) \<Rightarrow>
                    let s' = set_status s pid new_status;
                        p' = p\<lparr>status := new_status\<rparr>
                    in (Inr \<lparr>sv_id = prescription_id p', sv_patient_id = p_patient_id p',
                             sv_doctor_id = p_doctor_id p', sv_status = status p',
                             sv_created_at = created_at p',
                             sv_prescribed_drugs = prescribed_drugs s' p'\<rparr>, s'))))"

text \<open>
  \<^verbatim>\<open>get_prescription_label\<close>. The argument \<open>today_date\<close> is
  \<^verbatim>\<open>datetime.date.today().isoformat()\<close>, read when the request is served.
\<close>

definition label_string :: "string \<Rightarrow> string \<Rightarrow> drug \<Rightarrow> string \<Rightarrow> string" where
  "label_string pname fnum d today_date =
     ''name of patient: '' @ pname @ [CHR 0x0A] @
     ''file number: '' @ fnum @ [CHR 0x0A] @
     ''drug name: '' @ drug_name d @ [CHR 0x0A] @
     ''strength: '' @ strength d @ [CHR 0x0A] @
     ''instructions: '' @ instructions d @ [CHR 0x0A] @
     ''warning: '' @ warnings d @ [CHR 0x0A] @
     ''date: '' @ today_date"

fun labels_loop :: "string \<Rightarrow> string \<Rightarrow> string \<Rightarrow> drug list \<Rightarrow> string list \<Rightarrow> string list" where
  "labels_loop pname fnum today_date [] labels = labels"
| "labels_loop pname fnum today_date (d # rest) labels =
     labels_loop pname fnum today_date rest (labels @ [label_string pname fnum d today_date])"

definition get_prescription_label ::
  "database \<Rightarrow> string \<Rightarrow> int \<Rightarrow> error + int \<times> string list" where
  "get_prescription_label s today_date pid =
     (case query_prescription s pid of
        Inl e \<Rightarrow> Inl e
      | Inr None \<Rightarrow> Inl NotFound
      | Inr (Some p) \<Rightarrow>
         (case rel_patient s p of
            None \<Rightarrow> Inl UnhandledException
          | Some pat \<Rightarrow>
              Inr (pid, labels_loop (patient_name pat) (file_number pat) today_date
                          (prescribed_drugs s p) [])))"

section \<open>The catalog (app.py)\<close>

definition get_drugs :: "database \<Rightarrow> drug list" where
  "get_drugs s = drugs s"

definition add_drug :: "database \<Rightarrow> drug_request option \<Rightarrow> (error + drug) \<times> database" where
  "add_drug s data =
     (case data of
        None \<Rightarrow> (Inl BodyNotJSON, s)
      | Some req \<Rightarrow>
         (case (req_name req, req_strength req, req_instructions req, req_warnings req) of
            (Some n, Some st, Some ins, Some w) \<Rightarrow>
              if n = [] \<or> st = [] \<or> ins = [] \<or> w = [] then (Inl DrugFieldsMissing, s)
              else
                let new_drug = \<lparr>drug_id = next_id (map drug_id (drugs s)), drug_name = n,
                                strength = st, instructions = ins, warnings = w\<rparr>
                in (Inr new_drug, s\<lparr>drugs := drugs s @ [new_drug]\<rparr>)
          | _ \<Rightarrow> (Inl DrugFieldsMissing, s)))"

section \<open>Reporting (app.py)\<close>

text \<open>
  \<^verbatim>\<open>Prescription.query.filter_by(status='pending').order_by(created_at.desc()).all()\<close>
\<close>

definition pending_prescriptions :: "database \<Rightarrow> prescription list" where
  "pending_prescriptions s =
     sort_key (\<lambda>p. - created_at p) (filter (\<lambda>p. status p = ''pending'') (prescriptions s))"

fun notifications_loop ::
  "database \<Rightarrow> prescription list \<Rightarrow> notification list \<Rightarrow> error + notification list" where
  "notifications_loop s [] notifications = Inr notifications"
| "notifications_loop s (pres # rest) notifications =
     (case rel_patient s pres of
        None \<Rightarrow> Inl UnhandledException
      | Some pat \<Rightarrow>
          notifications_loop s rest
            (notifications @ [\<lparr>n_id = prescription_id pres, n_patient_name = patient_name pat,
                               n_created_at = created_at pres\<rparr>]))"

definition get_dashboard_notifications :: "database \<Rightarrow> error + notification list" where
  "get_dashboard_notifications s = notifications_loop s (pending_prescriptions s) []"

text \<open>\<^verbatim>\<open>get_drug_prescription_statistics\<close>: a dictionary keyed by drug name.\<close>

definition get_drug_prescription_statistics :: "database \<Rightarrow> (string \<rightharpoonup> nat)" where
  "get_drug_prescription_statistics s =
     (let ds = drugs s
      in if ds = [] then Map.empty
         else fold (\<lambda>d drug_counts. drug_counts(drug_name d \<mapsto> length (drug_prescriptions s d)))
                   ds Map.empty)"

section \<open>Sequences of requests\<close>

datatype request =
    CreatePrescription int "prescription_request option"
  | UpdateStatus int "status_request option"
  | AddDrug "drug_request option"

fun serve :: "request \<Rightarrow> database \<Rightarrow> database" where
  "serve (CreatePrescription now data) s = snd (create_prescription s now data)"
| "serve (UpdateStatus pid data) s = snd (update_prescription_status s pid data)"
| "serve (AddDrug data) s = snd (add_drug s data)"

definition serve_all :: "request list \<Rightarrow> database \<Rightarrow> database" where
  "serve_all rs s = fold serve rs s"

section \<open>The fixture of test_app.py\<close>

definition test_db :: database where
  "test_db =
     \<lparr>users = [\<lparr>user_id = 1, username = ''testdoc'', password_hash = ''h1'', role = ''doctor''\<rparr>,
               \<lparr>user_id = 2, username = ''testpharmacist'', password_hash = ''h2'',
                role = ''pharmacist''\<rparr>],
      patients = [\<lparr>patient_id = 1, patient_name = ''John Doe'', file_number = ''JD001''\<rparr>],
      drugs = [\<lparr>drug_id = 1, drug_name = ''Amoxicillin'', strength = ''250mg'',
                instructions = ''Take 1 every 8 hours'',
                warnings = ''Allergic reactions possible''\<rparr>,
               \<lparr>drug_id = 2, drug_name = ''Panadol'', strength = ''500mg'',
                instructions = ''2 tablets every 4-6 hours'', warnings = ''Max 8 tablets/day''\<rparr>,
               \<lparr>drug_id = 3, drug_name = ''Lisinopril'', strength = ''10mg'',
                instructions = ''1 tablet daily'', warnings = ''Monitor blood pressure''\<rparr>],
      prescriptions = [],
      prescription_drug_association = []\<rparr>"

definition mk_request :: "string \<Rightarrow> string \<Rightarrow> int \<Rightarrow> int list \<Rightarrow> prescription_request" where
  "mk_request pname fnum doctor_id drug_ids =
     \<lparr>req_patient_name = Some pname, req_patient_file_number = Some fnum,
      req_doctor_id = Some doctor_id, req_drugs = Some (map Some drug_ids)\<rparr>"


section \<open>Basic facts about the store\<close>


lemma fold_max_ge: "y \<in> set (x # xs) \<Longrightarrow> y \<le> fold max xs (x::int)"
  using Max_ge[of "set (x # xs)" y] by (simp only: Max.set_eq_fold[symmetric] List.finite_set)

lemma next_id_greater: "y \<in> set ids \<Longrightarrow> y < next_id ids"
proof (cases ids)
  case Nil
  then show "y \<in> set ids \<Longrightarrow> y < next_id ids" by simp
next
  case (Cons x xs)
  assume "y \<in> set ids"
  then have "y \<le> fold max xs x" using Cons fold_max_ge[of y x xs] by simp
  then show "y < next_id ids" using Cons by (simp add: next_id_def)
qed

lemma next_id_fresh: "next_id ids \<notin> set ids"
  using next_id_greater[of "next_id ids" ids] by auto

lemma find_append:
  "find P (xs @ ys) = (case find P xs of None \<Rightarrow> find P ys | Some x \<Rightarrow> Some x)"
  by (induction xs) auto

lemma find_key_distinct:
  "distinct (map f xs) \<Longrightarrow> x \<in> set xs \<Longrightarrow> find (\<lambda>y. f y = f x) xs = Some x"
proof (induction xs)
  case Nil
  then show ?case by simp
next
  case (Cons a xs)
  show ?case
  proof (cases "a = x")
    case True
    then show ?thesis by simp
  next
    case False
    then have "x \<in> set xs" using Cons.prems by simp
    then have "f a \<noteq> f x" using Cons.prems(1) by (auto simp: image_iff)
    then show ?thesis using Cons \<open>x \<in> set xs\<close> by simp
  qed
qed

lemma query_patient_None_iff:
  "query_patient s fnum = None \<longleftrightarrow> fnum \<notin> set (map file_number (patients s))"
  by (auto simp: query_patient_def find_None_iff)

lemma query_patient_SomeD:
  "query_patient s fnum = Some p \<Longrightarrow> p \<in> set (patients s) \<and> file_number p = fnum"
  by (auto simp: query_patient_def find_Some_iff)

lemma find_doctor_SomeD:
  "find_doctor s i = Some u \<Longrightarrow> u \<in> set (users s) \<and> user_id u = i \<and> role u = ''doctor''"
  by (auto simp: find_doctor_def find_Some_iff)

lemma find_doctor_None_iff:
  "find_doctor s i = None \<longleftrightarrow> \<not> (\<exists>u \<in> set (users s). user_id u = i \<and> role u = ''doctor'')"
  by (auto simp: find_doctor_def find_None_iff)

lemma find_drug_SomeD: "find_drug s i = Some d \<Longrightarrow> d \<in> set (drugs s) \<and> drug_id d = i"
  by (auto simp: find_drug_def find_Some_iff)

lemma find_drug_None_iff: "find_drug s i = None \<longleftrightarrow> i \<notin> set (map drug_id (drugs s))"
  by (auto simp: find_drug_def find_None_iff)

lemma find_drug_cong: "drugs s' = drugs s \<Longrightarrow> find_drug s' i = find_drug s i"
  by (simp add: find_drug_def)

text \<open>The queries by identifier, inside and outside the range of a stored integer.\<close>

lemma query_in_range:
  "int64 i \<Longrightarrow> query_doctor s i = Inr (find_doctor s i)"
  "int64 i \<Longrightarrow> query_drug s i = Inr (find_drug s i)"
  "int64 i \<Longrightarrow> query_prescription s i = Inr (get_prescription_row s i)"
  by (simp_all add: query_doctor_def query_drug_def query_prescription_def)


lemma query_doctor_SomeD:
  "query_doctor s i = Inr (Some u) \<Longrightarrow>
     int64 i \<and> u \<in> set (users s) \<and> user_id u = i \<and> role u = ''doctor''"
  by (auto simp: query_doctor_def find_doctor_def find_Some_iff split: if_splits)

lemma query_drug_SomeD:
  "query_drug s i = Inr (Some d) \<Longrightarrow> int64 i \<and> find_drug s i = Some d"
  by (auto simp: query_drug_def split: if_splits)

lemma query_prescription_SomeD:
  "query_prescription s i = Inr (Some p) \<Longrightarrow> int64 i \<and> get_prescription_row s i = Some p"
  by (auto simp: query_prescription_def split: if_splits)

lemma query_drug_cong: "drugs s' = drugs s \<Longrightarrow> query_drug s' i = query_drug s i"
  by (simp add: query_drug_def find_drug_def)

lemma validate_drugs_cong:
  assumes "drugs s' = drugs s"
  shows "validate_drugs s' xs acc = validate_drugs s xs acc"
proof (induction xs arbitrary: acc)
  case Nil
  show ?case by simp
next
  case (Cons x xs)
  show ?case
    by (cases x) (simp_all add: query_drug_cong[OF assms] Cons.IH split: option.splits sum.splits)
qed

lemma validate_drugs_InrD:
  "validate_drugs s xs acc = Inr ds \<Longrightarrow>
     \<exists>ds'. ds = acc @ ds' \<and> xs = map (\<lambda>d. Some (drug_id d)) ds' \<and>
           (\<forall>d \<in> set ds'. find_drug s (drug_id d) = Some d \<and> drug_id d \<noteq> 0 \<and>
                            int64 (drug_id d))"
proof (induction xs arbitrary: acc)
  case Nil
  then show ?case by simp
next
  case (Cons x xs)
  from Cons.prems obtain i d where x: "x = Some i" "i \<noteq> 0" "query_drug s i = Inr (Some d)"
    and rest: "validate_drugs s xs (acc @ [d]) = Inr ds"
    by (auto split: option.splits if_splits sum.splits)
  from Cons.IH[OF rest] obtain ds' where
    ds': "ds = (acc @ [d]) @ ds'" "xs = map (\<lambda>d. Some (drug_id d)) ds'"
         "\<forall>d \<in> set ds'. find_drug s (drug_id d) = Some d \<and> drug_id d \<noteq> 0 \<and>
                          int64 (drug_id d)"
    by blast
  note q = query_drug_SomeD[OF x(3)]
  have "drug_id d = i" using q find_drug_SomeD[of s i d] by simp
  then show ?case using x q ds' by (intro exI[of _ "d # ds'"]) auto
qed

lemma validate_drugs_present:
  "\<forall>j \<in> set pre. j \<noteq> 0 \<and> int64 j \<and> j \<in> set (map drug_id (drugs s)) \<Longrightarrow>
   validate_drugs s (map Some pre @ rest) acc =
   validate_drugs s rest (acc @ map (\<lambda>j. the (find_drug s j)) pre)"
proof (induction pre arbitrary: acc)
  case Nil
  then show ?case by simp
next
  case (Cons j pre)
  then obtain d where "find_drug s j = Some d"
    using find_drug_None_iff[of s j] by (cases "find_drug s j") auto
  then show ?case using Cons by (simp add: query_in_range)
qed

lemma find_or_create_patient_eq:
  "find_or_create_patient s pname fnum =
     Some (case query_patient s fnum of
             Some p \<Rightarrow> (p, s)
           | None \<Rightarrow> (new_patient s pname fnum,
                      s\<lparr>patients := patients s @ [new_patient s pname fnum]\<rparr>))"
proof (cases "query_patient s fnum")
  case None
  then have "fnum \<notin> set (map file_number (patients s))"
    by (simp add: query_patient_None_iff)
  then have "insert_patient s pname fnum =
      Some (new_patient s pname fnum, s\<lparr>patients := patients s @ [new_patient s pname fnum]\<rparr>)"
    by (simp add: insert_patient_def Let_def)
  then show ?thesis using None by (simp add: find_or_create_patient_def)
next
  case (Some p)
  then show ?thesis by (simp add: find_or_create_patient_def)
qed

lemma find_or_create_patient_cases:
  assumes "find_or_create_patient s pname fnum = Some (pat, s1)"
  shows "(query_patient s fnum = Some pat \<and> s1 = s) \<or>
         (query_patient s fnum = None \<and> pat = new_patient s pname fnum \<and>
          s1 = s\<lparr>patients := patients s @ [new_patient s pname fnum]\<rparr>)"
proof (cases "query_patient s fnum")
  case None
  then have "Some (new_patient s pname fnum,
                   s\<lparr>patients := patients s @ [new_patient s pname fnum]\<rparr>) = Some (pat, s1)"
    using assms by (simp only: find_or_create_patient_eq option.case)
  then have "pat = new_patient s pname fnum"
    and "s1 = s\<lparr>patients := patients s @ [new_patient s pname fnum]\<rparr>"
    by (metis option.inject prod.inject)+
  then show ?thesis using None by blast
next
  case (Some p)
  then have "Some (p, s) = Some (pat, s1)"
    using assms by (simp only: find_or_create_patient_eq option.case)
  then have "pat = p" and "s1 = s" by (metis option.inject prod.inject)+
  then show ?thesis using Some by blast
qed


section \<open>Creating a prescription\<close>

lemmas db_eval =
  create_prescription_def mk_request_def test_db_def query_doctor_def find_doctor_def
  find_or_create_patient_def query_patient_def insert_patient_def new_patient_def
  query_drug_def find_drug_def int64_def next_id_def insert_prescription_def
  get_prescription_def query_prescription_def
  get_prescription_row_def rel_patient_def rel_doctor_def prescribed_drugs_def
  drug_prescriptions_def Let_def

text \<open>
  C4, as the claim states it, fails at two doctor ids that resolve to no doctor. The id 0
  is falsy and is answered as a missing field (HTTP 400). The id \<open>2^63\<close> does not fit
  a stored integer: the query raises and the answer is HTTP 500. The store is unchanged
  in both cases.
\<close>

theorem unauthorized_doctor_counterexample:
  "find_doctor test_db 0 = None \<and>
   create_prescription test_db 100 (Some (mk_request ''Test Patient'' ''TP001'' 0 [1]))
     = (Inl MissingFields, test_db) \<and>
   http_status MissingFields = 400 \<and>
   find_doctor test_db 9223372036854775808 = None \<and>
   create_prescription test_db 100
       (Some (mk_request ''Test Patient'' ''TP001'' 9223372036854775808 [1]))
     = (Inl UnhandledException, test_db) \<and>
   http_status UnhandledException = 500"
  by (simp add: db_eval)

text \<open>
  C4, amended. Let the other three fields of a request be present and not empty, and
  let its doctor id resolve to no user with role doctor. Then \<open>create_prescription\<close>
  returns the store exactly as it was: no prescription, no association row and no
  patient is written. The answer is UnauthorizedDoctor (HTTP 403) when the doctor id is
  not 0 and lies in the signed 64-bit range; it is MissingFields for the id 0, and the
  unhandled exception of the query for an id outside the range.
\<close>

theorem unauthorized_doctor_atomic:
  assumes "req_patient_name req = Some pname" and "pname \<noteq> []"
    and "req_patient_file_number req = Some fnum" and "fnum \<noteq> []"
    and "req_doctor_id req = Some doctor_id"
    and "req_drugs req = Some drugs_data" and "drugs_data \<noteq> []"
    and "\<not> (\<exists>u \<in> set (users s). user_id u = doctor_id \<and> role u = ''doctor'')"
  shows "create_prescription s now (Some req) =
           (Inl (if doctor_id = 0 then MissingFields
                 else if int64 doctor_id then UnauthorizedDoctor
                 else UnhandledException), s) \<and>
         http_status UnauthorizedDoctor = 403"
proof -
  have "find_doctor s doctor_id = None"
    using assms(8) by (simp add: find_doctor_None_iff)
  then have "query_doctor s doctor_id =
      (if int64 doctor_id then Inr None else Inl UnhandledException)"
    by (simp add: query_doctor_def)
  then show ?thesis
    using assms(1-7) by (simp add: create_prescription_def)
qed

theorem unauthorized_doctor_atomic_witness:
  "create_prescription test_db 100 (Some (mk_request ''Test Patient'' ''TP001'' 999 [1]))
     = (Inl UnauthorizedDoctor, test_db) \<and>
   create_prescription test_db 100 (Some (mk_request ''Test Patient'' ''TP001'' 2 [1]))
     = (Inl UnauthorizedDoctor, test_db)"
  using unauthorized_doctor_atomic[of "mk_request ''Test Patient'' ''TP001'' 999 [1]"
          "''Test Patient''" "''TP001''" 999 "[Some 1]" test_db 100]
        unauthorized_doctor_atomic[of "mk_request ''Test Patient'' ''TP001'' 2 [1]"
          "''Test Patient''" "''TP001''" 2 "[Some 1]" test_db 100]
  by (simp add: mk_request_def test_db_def int64_def)

lemma create_prescription_after_doctor:
  assumes "req_patient_name req = Some pname" and "pname \<noteq> []"
    and "req_patient_file_number req = Some fnum" and "fnum \<noteq> []"
    and "req_doctor_id req = Some doctor_id" and "doctor_id \<noteq> 0"
    and "req_drugs req = Some drugs_data" and "drugs_data \<noteq> []"
    and "query_doctor s doctor_id = Inr (Some doctor)"
    and "find_or_create_patient s pname fnum = Some (pat, s1)"
  shows "create_prescription s now (Some req) =
     (case validate_drugs s1 drugs_data [] of
        Inl e \<Rightarrow> (Inl e, s1)
      | Inr ds \<Rightarrow>
          if ds = [] then (Inl NoValidDrugs, s1)
          else (case insert_prescription s1 (patient_id pat) (user_id doctor) ds now of
                  None \<Rightarrow> (Inl PrescriptionPersistenceError, s1)
                | Some (p, s2) \<Rightarrow>
                    (Inr \<lparr>c_prescription_id = prescription_id p, c_status = status p,
                          c_created_at = created_at p\<rparr>, s2)))"
  using assms by (simp add: create_prescription_def)

lemma query_doctor_present:
  assumes "int64 doctor_id"
    and "\<exists>u \<in> set (users s). user_id u = doctor_id \<and> role u = ''doctor''"
  shows "\<exists>doctor. query_doctor s doctor_id = Inr (Some doctor)"
proof -
  have "find_doctor s doctor_id \<noteq> None" using assms(2) by (simp add: find_doctor_None_iff)
  then show ?thesis using assms(1) by (auto simp: query_in_range)
qed

lemma validate_drugs_first_missing:
  assumes "\<forall>j \<in> set pre. j \<noteq> 0 \<and> int64 j \<and> j \<in> set (map drug_id (drugs s))"
    and "i \<notin> set (map drug_id (drugs s))"
  shows "validate_drugs s (map Some pre @ Some i # suf) acc =
           Inl (if i = 0 then DrugIdRequired
                else if int64 i then DrugNotFound i else UnhandledException)"
proof -
  have "find_drug s i = None" using assms(2) by (simp add: find_drug_None_iff)
  then have "query_drug s i = (if int64 i then Inr None else Inl UnhandledException)"
    by (simp add: query_drug_def)
  then show ?thesis
    by (simp add: validate_drugs_present[OF assms(1)])
qed

text \<open>
  C3, as the claim states it, fails at two missing drug ids. The id 0 is falsy and is
  answered DrugIdRequired, which names no id. The id \<open>2^63\<close> does not fit a stored
  integer: the query raises and the answer is HTTP 500.
\<close>

theorem drug_not_found_counterexample:
  "find_drug test_db 0 = None \<and>
   fst (create_prescription test_db 100 (Some (mk_request ''Test'' ''TP002'' 1 [1, 0, 2])))
     = Inl DrugIdRequired \<and>
   find_drug test_db 9223372036854775808 = None \<and>
   fst (create_prescription test_db 100
          (Some (mk_request ''Test'' ''TP002'' 1 [1, 9223372036854775808, 2])))
     = Inl UnhandledException \<and>
   http_status UnhandledException = 500"
  by (simp add: db_eval)

text \<open>
  C3, amended. Let the request name a doctor and let its drug entries be
  \<open>pre @ i # suf\<close>, where every id of \<open>pre\<close> is a catalog id (not 0, within the signed
  64-bit range) and \<open>i\<close> is not in the catalog: \<open>i\<close> is the first missing id. Then
  \<open>create_prescription\<close> answers \<open>DrugNotFound i\<close> when \<open>i\<close> is not 0 and lies in the
  signed 64-bit range; it answers DrugIdRequired for the id 0, and the unhandled
  exception of the query for an id outside the range. Whatever \<open>suf\<close> holds, entries
  after \<open>i\<close> are not looked at: the answer and the store are those of the request cut
  after \<open>i\<close>. The tables of prescriptions and of associations are unchanged, as are
  users and drugs.
\<close>

theorem drug_not_found_short_circuit:
  assumes "pname \<noteq> []" and "fnum \<noteq> []" and "doctor_id \<noteq> 0" and "int64 doctor_id"
    and "\<exists>u \<in> set (users s). user_id u = doctor_id \<and> role u = ''doctor''"
    and "\<forall>j \<in> set pre. j \<noteq> 0 \<and> int64 j \<and> j \<in> set (map drug_id (drugs s))"
    and "i \<notin> set (map drug_id (drugs s))"
    and "req = \<lparr>req_patient_name = Some pname, req_patient_file_number = Some fnum,
                req_doctor_id = Some doctor_id,
                req_drugs = Some (map Some pre @ Some i # suf)\<rparr>"
  shows "fst (create_prescription s now (Some req)) =
           Inl (if i = 0 then DrugIdRequired
                else if int64 i then DrugNotFound i else UnhandledException) \<and>
         http_status (DrugNotFound i) = 400 \<and>
         prescriptions (snd (create_prescription s now (Some req))) = prescriptions s \<and>
         prescription_drug_association (snd (create_prescription s now (Some req))) =
           prescription_drug_association s \<and>
         users (snd (create_prescription s now (Some req))) = users s \<and>
         drugs (snd (create_prescription s now (Some req))) = drugs s \<and>
         create_prescription s now (Some req) =
           create_prescription s now (Some (req\<lparr>req_drugs := Some (map Some pre @ [Some i])\<rparr>))"
proof -
  let ?e = "if i = 0 then DrugIdRequired
            else if int64 i then DrugNotFound i else UnhandledException"
  obtain doctor where doctor: "query_doctor s doctor_id = Inr (Some doctor)"
    using query_doctor_present[OF assms(4,5)] by blast
  obtain pat s1 where pat: "find_or_create_patient s pname fnum = Some (pat, s1)"
    by (cases "case query_patient s fnum of
             Some p \<Rightarrow> (p, s)
           | None \<Rightarrow> (new_patient s pname fnum,
                      s\<lparr>patients := patients s @ [new_patient s pname fnum]\<rparr>)")
       (simp add: find_or_create_patient_eq)
  have s1: "users s1 = users s" "drugs s1 = drugs s" "prescriptions s1 = prescriptions s"
    "prescription_drug_association s1 = prescription_drug_association s"
    using pat by (auto simp: find_or_create_patient_eq split: option.splits)
  have pre: "\<forall>j \<in> set pre. j \<noteq> 0 \<and> int64 j \<and> j \<in> set (map drug_id (drugs s1))"
    and miss: "i \<notin> set (map drug_id (drugs s1))"
    using assms(6,7) s1(2) by simp_all
  have v: "validate_drugs s1 (map Some pre @ Some i # suf') [] = Inl ?e" for suf'
    by (rule validate_drugs_first_missing[OF pre miss])
  have r: "create_prescription s now (Some (req\<lparr>req_drugs := Some (map Some pre @ Some i # suf')\<rparr>))
             = (Inl ?e, s1)" for suf'
    using create_prescription_after_doctor[of
        "req\<lparr>req_drugs := Some (map Some pre @ Some i # suf')\<rparr>" pname fnum doctor_id
        "map Some pre @ Some i # suf'" s doctor pat s1 now]
      assms(1-3,8) doctor pat v[of suf'] by simp
  have "req\<lparr>req_drugs := Some (map Some pre @ Some i # suf)\<rparr> = req" using assms(8) by simp
  then have "create_prescription s now (Some req) = (Inl ?e, s1)"
    using r[of suf] by simp
  then show ?thesis using r[of "[]"] s1 by simp
qed

theorem drug_not_found_short_circuit_witness:
  "fst (create_prescription test_db 100 (Some (mk_request ''Test'' ''TP002'' 1 [1, 999, 2, 998])))
     = Inl (DrugNotFound 999) \<and>
   prescriptions (snd (create_prescription test_db 100
       (Some (mk_request ''Test'' ''TP002'' 1 [1, 999, 2, 998])))) = [] \<and>
   prescription_drug_association (snd (create_prescription test_db 100
       (Some (mk_request ''Test'' ''TP002'' 1 [1, 999, 2, 998])))) = []"
proof -
  have u: "\<exists>u \<in> set (users test_db). user_id u = 1 \<and> role u = ''doctor''"
    by (simp add: test_db_def)
  have p: "\<forall>j \<in> set [1]. j \<noteq> 0 \<and> int64 j \<and> j \<in> set (map drug_id (drugs test_db))"
    by (simp add: test_db_def int64_def)
  have m: "999 \<notin> set (map drug_id (drugs test_db))"
    by (simp add: test_db_def)
  have r: "mk_request ''Test'' ''TP002'' 1 [1, 999, 2, 998] =
      \<lparr>req_patient_name = Some ''Test'', req_patient_file_number = Some ''TP002'',
       req_doctor_id = Some 1,
       req_drugs = Some (map Some [1] @ Some 999 # [Some 2, Some 998])\<rparr>"
    by (simp add: mk_request_def)
  have e: "prescriptions test_db = []" "prescription_drug_association test_db = []"
    by (simp_all add: test_db_def)
  have n: "''Test'' \<noteq> []" "''TP002'' \<noteq> []" "(1::int) \<noteq> 0" "int64 1"
    by (simp_all add: int64_def)
  have k: "(if (999::int) = 0 then DrugIdRequired
            else if int64 999 then DrugNotFound 999 else UnhandledException) = DrugNotFound 999"
    by (simp add: int64_def)
  show ?thesis
    using drug_not_found_short_circuit[OF n(1,2,3,4) u p m r, of 100] e
    unfolding k by metis
qed

text \<open>
  C10. When the file number of a request is new and the request fails with
  DrugNotFound, the patient created for it stays in the store: the final store is the
  initial one with that patient appended, and so differs from it.
\<close>

theorem new_patient_survives_drug_not_found:
  assumes "req_patient_name req = Some pname"
    and "req_patient_file_number req = Some fnum"
    and "fnum \<notin> set (map file_number (patients s))"
    and "create_prescription s now (Some req) = (Inl (DrugNotFound i), s')"
  shows "s' = s\<lparr>patients := patients s @ [new_patient s pname fnum]\<rparr> \<and>
         query_patient s' fnum = Some (new_patient s pname fnum) \<and>
         patient_name (new_patient s pname fnum) = pname \<and>
         file_number (new_patient s pname fnum) = fnum \<and>
         s' \<noteq> s"
proof -
  have q: "query_patient s fnum = None" using assms(3) by (simp add: query_patient_None_iff)
  have f: "find_or_create_patient s pname fnum =
      Some (new_patient s pname fnum, s\<lparr>patients := patients s @ [new_patient s pname fnum]\<rparr>)"
    by (simp add: find_or_create_patient_eq q)
  have s': "s' = s\<lparr>patients := patients s @ [new_patient s pname fnum]\<rparr>"
    using assms(1,2,4) f
    by (auto simp: create_prescription_def query_doctor_def
             split: option.splits if_splits sum.splits prod.splits)
  have "query_patient s' fnum = Some (new_patient s pname fnum)"
    using q by (simp add: s' query_patient_def find_append new_patient_def)
  moreover have "patients s' \<noteq> patients s" by (simp add: s')
  then have "s' \<noteq> s" by auto
  moreover have "patient_name (new_patient s pname fnum) = pname"
    and "file_number (new_patient s pname fnum) = fnum"
    by (simp_all add: new_patient_def)
  ultimately show ?thesis using s' by blast
qed

theorem new_patient_survives_drug_not_found_witness:
  "create_prescription test_db 100 (Some (mk_request ''Test Patient'' ''TP002'' 1 [999])) =
     (Inl (DrugNotFound 999),
      test_db\<lparr>patients := patients test_db @
         [\<lparr>patient_id = 2, patient_name = ''Test Patient'', file_number = ''TP002''\<rparr>]\<rparr>)"
proof -
  have c: "create_prescription test_db 100 (Some (mk_request ''Test Patient'' ''TP002'' 1 [999])) =
     (Inl (DrugNotFound 999), snd (create_prescription test_db 100
        (Some (mk_request ''Test Patient'' ''TP002'' 1 [999]))))"
    by (simp add: db_eval)
  have n: "new_patient test_db ''Test Patient'' ''TP002'' =
     \<lparr>patient_id = 2, patient_name = ''Test Patient'', file_number = ''TP002''\<rparr>"
    by (simp add: new_patient_def test_db_def next_id_def)
  show ?thesis
    using new_patient_survives_drug_not_found[OF _ _ _ c, of "''Test Patient''" "''TP002''"] n c
    by (simp add: mk_request_def test_db_def)
qed

lemma insert_prescription_SomeD:
  assumes "insert_prescription s pat doc ds now = Some (p, s')"
  shows "p = \<lparr>prescription_id = next_id (map prescription_id (prescriptions s)),
              p_patient_id = pat, p_doctor_id = doc, status = ''pending'', created_at = now\<rparr>"
    and "s' = s\<lparr>prescriptions := prescriptions s @ [p],
                prescription_drug_association := prescription_drug_association s @
                   map (Pair (prescription_id p)) (remdups (map drug_id ds))\<rparr>"
proof -
  let ?n = "next_id (map prescription_id (prescriptions s))"
  from assms have
    e: "(p, s') = (\<lparr>prescription_id = ?n, p_patient_id = pat, p_doctor_id = doc,
                         status = ''pending'', created_at = now\<rparr>,
                       s\<lparr>prescriptions := prescriptions s @
                            [\<lparr>prescription_id = ?n, p_patient_id = pat, p_doctor_id = doc,
                              status = ''pending'', created_at = now\<rparr>],
                         prescription_drug_association := prescription_drug_association s @
                            map (Pair ?n) (remdups (map drug_id ds))\<rparr>)"
    by (auto simp: insert_prescription_def Let_def split: if_splits)
  show "p = \<lparr>prescription_id = ?n, p_patient_id = pat, p_doctor_id = doc,
             status = ''pending'', created_at = now\<rparr>" using e by simp
  then show "s' = s\<lparr>prescriptions := prescriptions s @ [p],
                prescription_drug_association := prescription_drug_association s @
                   map (Pair (prescription_id p)) (remdups (map drug_id ds))\<rparr>" using e by simp
qed


lemma create_prescription_InrD:
  assumes "create_prescription s now data = (Inr r, s')"
  shows "\<exists>req pname fnum doctor_id drugs_data doctor pat s1 ds p.
    data = Some req \<and>
    req_patient_name req = Some pname \<and> pname \<noteq> [] \<and>
    req_patient_file_number req = Some fnum \<and> fnum \<noteq> [] \<and>
    req_doctor_id req = Some doctor_id \<and> doctor_id \<noteq> 0 \<and>
    req_drugs req = Some drugs_data \<and> drugs_data \<noteq> [] \<and>
    query_doctor s doctor_id = Inr (Some doctor) \<and>
    find_or_create_patient s pname fnum = Some (pat, s1) \<and>
    validate_drugs s1 drugs_data [] = Inr ds \<and> ds \<noteq> [] \<and>
    insert_prescription s1 (patient_id pat) (user_id doctor) ds now = Some (p, s') \<and>
    r = \<lparr>c_prescription_id = prescription_id p, c_status = status p,
          c_created_at = created_at p\<rparr>"
proof -
  from assms obtain req where d: "data = Some req"
    by (cases data) (simp_all add: create_prescription_def)
  from assms d obtain pname where n: "req_patient_name req = Some pname"
    by (cases "req_patient_name req") (simp_all add: create_prescription_def)
  from assms d n obtain fnum where f: "req_patient_file_number req = Some fnum"
    by (cases "req_patient_file_number req") (simp_all add: create_prescription_def)
  from assms d n f obtain doctor_id where i: "req_doctor_id req = Some doctor_id"
    by (cases "req_doctor_id req") (simp_all add: create_prescription_def)
  from assms d n f i obtain drugs_data where g: "req_drugs req = Some drugs_data"
    by (cases "req_drugs req") (simp_all add: create_prescription_def)
  from assms d n f i g have t: "pname \<noteq> []" "fnum \<noteq> []" "doctor_id \<noteq> 0" "drugs_data \<noteq> []"
    by (auto simp: create_prescription_def split: if_splits)
  have "\<exists>doctor. query_doctor s doctor_id = Inr (Some doctor)"
  proof (cases "query_doctor s doctor_id")
    case (Inl e)
    then show ?thesis using assms d n f i g t by (simp add: create_prescription_def)
  next
    case (Inr found)
    then show ?thesis using assms d n f i g t
      by (cases found) (simp_all add: create_prescription_def)
  qed
  then obtain doctor where q: "query_doctor s doctor_id = Inr (Some doctor)" by blast
  obtain pat s1 where c: "find_or_create_patient s pname fnum = Some (pat, s1)"
    using find_or_create_patient_eq[of s pname fnum] by (metis surj_pair)
  note e = create_prescription_after_doctor[OF n t(1) f t(2) i t(3) g t(4) q c, of now]
  from assms d e obtain ds where v: "validate_drugs s1 drugs_data [] = Inr ds"
    by (cases "validate_drugs s1 drugs_data []") simp_all
  from assms d e v have ne: "ds \<noteq> []" by (auto split: if_splits)
  from assms d e v ne obtain p s2 where
    ins: "insert_prescription s1 (patient_id pat) (user_id doctor) ds now = Some (p, s2)"
    by (cases "insert_prescription s1 (patient_id pat) (user_id doctor) ds now") auto
  from assms d e v ne ins have "s2 = s'"
    and "r = \<lparr>c_prescription_id = prescription_id p, c_status = status p,
              c_created_at = created_at p\<rparr>"
    by simp_all
  then show ?thesis using d n f i g t q c v ne ins by blast
qed


section \<open>The schema's constraints are preserved\<close>

lemma wf_db_patients_append:
  assumes "wf_db s" and "fnum \<notin> set (map file_number (patients s))"
  shows "wf_db (s\<lparr>patients := patients s @ [new_patient s pname fnum]\<rparr>)"
proof -
  have "patient_id (new_patient s pname fnum) \<notin> set (map patient_id (patients s))"
    using next_id_fresh[of "map patient_id (patients s)"] by (simp add: new_patient_def)
  moreover have "file_number (new_patient s pname fnum) = fnum" by (simp add: new_patient_def)
  ultimately show ?thesis using assms by (auto simp: wf_db_def list_all_iff)
qed

lemma wf_db_find_or_create_patient:
  assumes "wf_db s" and "find_or_create_patient s pname fnum = Some (pat, s1)"
  shows "wf_db s1" and "pat \<in> set (patients s1)" and "file_number pat = fnum"
    and "users s1 = users s" and "drugs s1 = drugs s" and "prescriptions s1 = prescriptions s"
    and "prescription_drug_association s1 = prescription_drug_association s"
proof -
  show "wf_db s1"
  proof (cases "query_patient s fnum")
    case None
    then have "fnum \<notin> set (map file_number (patients s))"
      by (simp add: query_patient_None_iff)
    moreover have "Some (new_patient s pname fnum,
                         s\<lparr>patients := patients s @ [new_patient s pname fnum]\<rparr>) = Some (pat, s1)"
      using assms(2) None by (simp only: find_or_create_patient_eq option.case)
    then have "s1 = s\<lparr>patients := patients s @ [new_patient s pname fnum]\<rparr>"
      by (metis option.inject prod.inject)
    ultimately show ?thesis
      using assms(1) wf_db_patients_append[of s fnum pname] by simp
  next
    case (Some p)
    then show ?thesis using assms by (simp add: find_or_create_patient_eq)
  qed
  show "pat \<in> set (patients s1)" "file_number pat = fnum"
    using assms(2) query_patient_SomeD[of s fnum]
    by (auto simp: find_or_create_patient_eq new_patient_def split: option.splits)
  show "users s1 = users s" "drugs s1 = drugs s" "prescriptions s1 = prescriptions s"
    "prescription_drug_association s1 = prescription_drug_association s"
    using assms(2) by (auto simp: find_or_create_patient_eq split: option.splits)
qed

lemma wf_db_insert_prescription:
  assumes "wf_db s" and "insert_prescription s pat doc ds now = Some (p, s')"
    and "pat \<in> set (map patient_id (patients s))" and "doc \<in> set (map user_id (users s))"
    and "\<forall>d \<in> set ds. drug_id d \<in> set (map drug_id (drugs s))"
  shows "wf_db s'"
proof -
  note i = insert_prescription_SomeD[OF assms(2)]
  let ?n = "next_id (map prescription_id (prescriptions s))"
  let ?rows = "map (Pair ?n) (remdups (map drug_id ds))"
  have id: "prescription_id p = ?n" using i(1) by simp
  have fresh: "?n \<notin> set (map prescription_id (prescriptions s))" by (rule next_id_fresh)
  have fk: "\<forall>r \<in> set (prescription_drug_association s).
              fst r \<in> set (map prescription_id (prescriptions s))"
    using assms(1) by (auto simp: wf_db_def list_all_iff)
  have d1: "distinct (map prescription_id (prescriptions s @ [p]))"
    using assms(1) fresh id by (simp add: wf_db_def)
  have d2: "distinct (prescription_drug_association s @ ?rows)"
  proof -
    have "distinct ?rows"
      by (simp add: distinct_map inj_on_def)
    moreover have "set (prescription_drug_association s) \<inter> set ?rows = {}"
      using fk fresh by fastforce
    ultimately show ?thesis using assms(1) by (simp add: wf_db_def)
  qed
  have pp: "p_patient_id p = pat" "p_doctor_id p = doc" using i(1) by simp_all
  have t: "users s' = users s" "patients s' = patients s" "drugs s' = drugs s"
    "prescriptions s' = prescriptions s @ [p]"
    "prescription_drug_association s' = prescription_drug_association s @ ?rows"
    using i(2) id by simp_all
  have c8: "list_all (\<lambda>q. p_patient_id q \<in> set (map patient_id (patients s')) \<and>
                    p_doctor_id q \<in> set (map user_id (users s'))) (prescriptions s')"
    using assms(1,3,4) pp by (simp add: t wf_db_def list_all_iff)
  have c9: "list_all (\<lambda>(pid, did). pid \<in> set (map prescription_id (prescriptions s')) \<and>
                            did \<in> set (map drug_id (drugs s')))
              (prescription_drug_association s')"
  proof -
    have "list_all (\<lambda>(pid, did). pid \<in> set (map prescription_id (prescriptions s)) \<and>
                            did \<in> set (map drug_id (drugs s)))
              (prescription_drug_association s)"
      using assms(1) by (simp add: wf_db_def)
    then have "\<forall>r \<in> set (prescription_drug_association s).
         fst r \<in> set (map prescription_id (prescriptions s')) \<and>
         snd r \<in> set (map drug_id (drugs s'))"
      by (auto simp: t list_all_iff)
    moreover have "\<forall>r \<in> set ?rows.
         fst r \<in> set (map prescription_id (prescriptions s')) \<and>
         snd r \<in> set (map drug_id (drugs s'))"
      using assms(5) id by (auto simp: t)
    ultimately show ?thesis
      unfolding t(5) list_all_iff by (auto simp: case_prod_beta)
  qed
  have "distinct (map user_id (users s'))" "distinct (map username (users s'))"
    "distinct (map patient_id (patients s'))" "distinct (map file_number (patients s'))"
    "distinct (map drug_id (drugs s'))"
    using assms(1) by (simp_all add: t wf_db_def)
  moreover have "distinct (map prescription_id (prescriptions s'))" using d1 by (simp add: t)
  moreover have "distinct (prescription_drug_association s')" using d2 by (simp add: t)
  ultimately show ?thesis using c8 c9 unfolding wf_db_def by blast
qed

lemma create_prescription_store:
  obtains (unchanged) "snd (create_prescription s now data) = s"
  | (patient) req pname fnum pat where "data = Some req"
      "req_patient_name req = Some pname" "req_patient_file_number req = Some fnum"
      "find_or_create_patient s pname fnum = Some (pat, snd (create_prescription s now data))"
  | (created) r where
      "create_prescription s now data = (Inr r, snd (create_prescription s now data))"
proof (cases "fst (create_prescription s now data)")
  case (Inr r)
  then have "create_prescription s now data = (Inr r, snd (create_prescription s now data))"
    by (metis prod.collapse)
  then show ?thesis by (rule created)
next
  case (Inl err)
  show ?thesis
  proof (cases data)
    case None
    then show ?thesis using unchanged by (simp add: create_prescription_def)
  next
    case d: (Some req)
    show ?thesis
    proof (cases "req_patient_name req")
      case None
      then show ?thesis using d unchanged by (simp add: create_prescription_def)
    next
      case n: (Some pname)
      show ?thesis
      proof (cases "req_patient_file_number req")
        case None
        then show ?thesis using d n unchanged by (simp add: create_prescription_def)
      next
        case f: (Some fnum)
        show ?thesis
        proof (cases "req_doctor_id req")
          case None
          then show ?thesis using d n f unchanged by (simp add: create_prescription_def)
        next
          case i: (Some doctor_id)
          show ?thesis
          proof (cases "req_drugs req")
            case None
            then show ?thesis using d n f i unchanged by (simp add: create_prescription_def)
          next
            case g: (Some drugs_data)
            show ?thesis
            proof (cases "pname \<noteq> [] \<and> fnum \<noteq> [] \<and> doctor_id \<noteq> 0 \<and> drugs_data \<noteq> []")
              case False
              then show ?thesis using d n f i g unchanged
                by (auto simp: create_prescription_def)
            next
              case t: True
              show ?thesis
              proof (cases "\<exists>doctor. query_doctor s doctor_id = Inr (Some doctor)")
                case False
                have "snd (create_prescription s now data) = s"
                proof (cases "query_doctor s doctor_id")
                  case (Inl e)
                  then show ?thesis using d n f i g t by (simp add: create_prescription_def)
                next
                  case (Inr found)
                  then have "found = None" using False by (cases found) simp_all
                  then show ?thesis using Inr d n f i g t by (simp add: create_prescription_def)
                qed
                then show ?thesis by (rule unchanged)
              next
                case True
                then obtain doctor where q: "query_doctor s doctor_id = Inr (Some doctor)"
                  by blast
                obtain pat s1 where c: "find_or_create_patient s pname fnum = Some (pat, s1)"
                  using find_or_create_patient_eq[of s pname fnum] by (metis surj_pair)
                have e: "create_prescription s now (Some req) =
                   (case validate_drugs s1 drugs_data [] of
                      Inl e \<Rightarrow> (Inl e, s1)
                    | Inr ds \<Rightarrow>
                        if ds = [] then (Inl NoValidDrugs, s1)
                        else (case insert_prescription s1 (patient_id pat) (user_id doctor) ds now of
                           None \<Rightarrow> (Inl PrescriptionPersistenceError, s1)
                         | Some (p, s2) \<Rightarrow>
                             (Inr \<lparr>c_prescription_id = prescription_id p, c_status = status p,
                                   c_created_at = created_at p\<rparr>, s2)))"
                  using create_prescription_after_doctor[OF n _ f _ i _ g _ q c] t by blast
                have "snd (create_prescription s now (Some req)) = s1"
                  using Inl unfolding d e
                  by (auto split: sum.splits if_splits option.splits)
                then show ?thesis using patient[OF d n f] c d by simp
              qed
            qed
          qed
        qed
      qed
    qed
  qed
qed

lemma validate_drugs_Nil_InrD:
  assumes "validate_drugs s xs [] = Inr ds"
  shows "xs = map (\<lambda>d. Some (drug_id d)) ds"
    and "\<forall>d \<in> set ds. find_drug s (drug_id d) = Some d \<and> drug_id d \<noteq> 0 \<and> d \<in> set (drugs s)"
    and "\<forall>d \<in> set ds. int64 (drug_id d)"
proof -
  from validate_drugs_InrD[OF assms] obtain ds' where
    d: "ds = [] @ ds'" "xs = map (\<lambda>d. Some (drug_id d)) ds'"
       "\<forall>d \<in> set ds'. find_drug s (drug_id d) = Some d \<and> drug_id d \<noteq> 0 \<and>
                        int64 (drug_id d)"
    by blast
  show "xs = map (\<lambda>d. Some (drug_id d)) ds" using d(1,2) by simp
  show "\<forall>d \<in> set ds. int64 (drug_id d)" using d(1,3) by simp
  show "\<forall>d \<in> set ds. find_drug s (drug_id d) = Some d \<and> drug_id d \<noteq> 0 \<and> d \<in> set (drugs s)"
  proof
    fix x assume "x \<in> set ds"
    then have g: "find_drug s (drug_id x) = Some x" and "drug_id x \<noteq> 0" using d(1,3) by simp_all
    then show "find_drug s (drug_id x) = Some x \<and> drug_id x \<noteq> 0 \<and> x \<in> set (drugs s)"
      using find_drug_SomeD[OF g] by simp
  qed
qed

lemma wf_db_create_prescription:
  assumes "wf_db s"
  shows "wf_db (snd (create_prescription s now data))"
proof (cases rule: create_prescription_store[of s now data])
  case unchanged
  then show ?thesis using assms by simp
next
  case (patient req pname fnum pat)
  show ?thesis by (rule wf_db_find_or_create_patient(1)[OF assms patient(4)])
next
  case (created r)
  from create_prescription_InrD[OF created] obtain pname fnum doctor_id drugs_data doctor pat s1 ds p
    where q: "query_doctor s doctor_id = Inr (Some doctor)"
      and f: "find_or_create_patient s pname fnum = Some (pat, s1)"
      and v: "validate_drugs s1 drugs_data [] = Inr ds"
      and ins: "insert_prescription s1 (patient_id pat) (user_id doctor) ds now =
                  Some (p, snd (create_prescription s now data))"
    by (elim exE conjE)
  note w = wf_db_find_or_create_patient[OF assms f]
  have a: "\<forall>d \<in> set ds. drug_id d \<in> set (map drug_id (drugs s1))"
    using validate_drugs_Nil_InrD(2)[OF v] by simp
  have "doctor \<in> set (users s1)" using query_doctor_SomeD[OF q] w(4) by simp
  then have b: "user_id doctor \<in> set (map user_id (users s1))" by simp
  have c: "patient_id pat \<in> set (map patient_id (patients s1))" using w(2) by simp
  show ?thesis by (rule wf_db_insert_prescription[OF w(1) ins c b a])
qed

section \<open>Reading a new prescription back\<close>

lemma join_other_keys:
  "\<forall>r \<in> set rows. fst r \<noteq> k \<Longrightarrow> filter (\<lambda>(pid, did). pid = k) rows = []"
  by (induction rows) auto

lemma join_new_rows:
  "filter (\<lambda>(pid, did). pid = k) (map (Pair k) js) = map (Pair k) js"
  by (induction js) auto

lemma insort_key_snd_Pair:
  "insort_key snd (k, j) (map (Pair k) js) = map (Pair k) (insort j js)"
  by (induction js) auto

lemma sort_key_snd_Pair: "sort_key snd (map (Pair k) js) = map (Pair k) (sort js)"
  by (induction js) (simp_all add: insort_key_snd_Pair)

lemma join_drugs:
  "\<forall>j \<in> set js. find_drug s j \<noteq> None \<Longrightarrow>
   concat (map (\<lambda>(pid, did). case find_drug s did of Some d \<Rightarrow> [d] | None \<Rightarrow> [])
               (map (Pair k) js)) = map (\<lambda>j. the (find_drug s j)) js"
  by (induction js) auto

text \<open>What a successful insert leaves in the store, as the relationships read it back.\<close>

lemma insert_prescription_readback:
  assumes wf: "wf_db s" and ins: "insert_prescription s pat doc ds now = Some (p, s')"
    and ds: "\<forall>d \<in> set ds. find_drug s (drug_id d) = Some d"
  shows "get_prescription_row s' (prescription_id p) = Some p"
    and "prescribed_drugs s' p =
           map (\<lambda>j. the (find_drug s j)) (sort (remdups (map drug_id ds)))"
    and "users s' = users s" and "patients s' = patients s" and "drugs s' = drugs s"
    and "p_patient_id p = pat" and "p_doctor_id p = doc"
    and "status p = ''pending''" and "created_at p = now"
proof -
  note i = insert_prescription_SomeD[OF ins]
  let ?n = "next_id (map prescription_id (prescriptions s))"
  let ?js = "remdups (map drug_id ds)"
  have id: "prescription_id p = ?n" using i(1) by simp
  have t: "users s' = users s" "patients s' = patients s" "drugs s' = drugs s"
    "prescriptions s' = prescriptions s @ [p]"
    "prescription_drug_association s' =
       prescription_drug_association s @ map (Pair ?n) ?js"
    using i(2) id by simp_all
  show "users s' = users s" "patients s' = patients s" "drugs s' = drugs s" by (rule t)+
  show "p_patient_id p = pat" "p_doctor_id p = doc" "status p = ''pending''" "created_at p = now"
    using i(1) by simp_all
  have fresh: "?n \<notin> set (map prescription_id (prescriptions s))" by (rule next_id_fresh)
  then have "find (\<lambda>q. prescription_id q = ?n) (prescriptions s) = None"
    by (force simp: find_None_iff image_iff)
  then show "get_prescription_row s' (prescription_id p) = Some p"
    by (simp add: get_prescription_row_def t(4) find_append id)
  have fk: "\<forall>r \<in> set (prescription_drug_association s). fst r \<noteq> ?n"
  proof
    fix r assume "r \<in> set (prescription_drug_association s)"
    then have "fst r \<in> set (map prescription_id (prescriptions s))"
      using wf by (auto simp: wf_db_def list_all_iff)
    then show "fst r \<noteq> ?n" using fresh by auto
  qed
  have g: "find_drug s' j = find_drug s j" for j by (rule find_drug_cong[OF t(3)])
  have present: "\<forall>j \<in> set (sort ?js). find_drug s j \<noteq> None"
    using ds by auto
  have rows: "sort_key snd (filter (\<lambda>(pid, did). pid = ?n) (prescription_drug_association s'))
                = map (Pair ?n) (sort ?js)"
    unfolding t(5) filter_append
    by (simp only: join_other_keys[OF fk] join_new_rows append_Nil sort_key_snd_Pair)
  show "prescribed_drugs s' p = map (\<lambda>j. the (find_drug s j)) (sort ?js)"
    unfolding prescribed_drugs_def id rows g by (rule join_drugs[OF present])
qed

lemma readback_drugs:
  assumes "\<forall>d \<in> set ds. find_drug s (drug_id d) = Some d"
    and "set js = set (map drug_id ds)"
  shows "map drug_id (map (\<lambda>j. the (find_drug s j)) js) = js"
    and "set (map (\<lambda>j. the (find_drug s j)) js) = set ds"
proof -
  have a: "drug_id (the (find_drug s j)) = j" if "j \<in> set js" for j
    using that assms by auto
  then show "map drug_id (map (\<lambda>j. the (find_drug s j)) js) = js"
    by (simp add: map_idI)
  show "set (map (\<lambda>j. the (find_drug s j)) js) = set ds"
  proof (intro set_eqI iffI)
    fix d assume "d \<in> set (map (\<lambda>j. the (find_drug s j)) js)"
    then obtain j where "j \<in> set js" "d = the (find_drug s j)" by auto
    then show "d \<in> set ds" using assms by auto
  next
    fix d assume d: "d \<in> set ds"
    then have "drug_id d \<in> set js" "the (find_drug s (drug_id d)) = d" using assms by auto
    then show "d \<in> set (map (\<lambda>j. the (find_drug s j)) js)" by force
  qed
qed

lemma wf_db_test_db: "wf_db test_db"
  by (simp add: wf_db_def test_db_def)

text \<open>
  C1, as the claim states it, fails on the order of the drugs. A prescription created
  with the drug ids 2, 1 is read back with drug 1 before drug 2: the relationship load
  returns the drugs in ascending order of drug id, not in the order of the request.
\<close>

theorem create_get_roundtrip_counterexample:
  "fst (create_prescription test_db 100 (Some (mk_request ''Jane Smith'' ''JS001'' 1 [2, 1]))) =
     Inr \<lparr>c_prescription_id = 1, c_status = ''pending'', c_created_at = 100\<rparr> \<and>
   get_prescription
     (snd (create_prescription test_db 100 (Some (mk_request ''Jane Smith'' ''JS001'' 1 [2, 1]))))
     1 =
     Inr \<lparr>v_id = 1,
          v_patient = \<lparr>patient_id = 2, patient_name = ''Jane Smith'', file_number = ''JS001''\<rparr>,
          v_doctor = (1, ''testdoc''), v_status = ''pending'', v_created_at = 100,
          v_prescribed_drugs =
            [\<lparr>drug_id = 1, drug_name = ''Amoxicillin'', strength = ''250mg'',
               instructions = ''Take 1 every 8 hours'',
               warnings = ''Allergic reactions possible''\<rparr>,
             \<lparr>drug_id = 2, drug_name = ''Panadol'', strength = ''500mg'',
               instructions = ''2 tablets every 4-6 hours'',
               warnings = ''Max 8 tablets/day''\<rparr>]\<rparr>"
  by code_simp

text \<open>
  C1, amended. After a successful \<open>create_prescription\<close> on a store that satisfies the
  schema's constraints, \<open>get_prescription\<close> on the returned identifier (an identifier
  within the signed 64-bit range, as every stored key is) succeeds, and its view shows
  a patient with the request's file number (and, when the file number was new, the
  request's name), the request's doctor id with the username of that doctor, the drugs
  of the request's id list, each once and as the catalog holds it, in ascending order
  of drug id, and the status \<open>pending\<close>. The drug list of the view is the request's
  list exactly when that list is strictly ascending.
\<close>

theorem create_get_roundtrip:
  assumes "wf_db s" and "create_prescription s now (Some req) = (Inr r, s')"
    and "int64 (c_prescription_id r)"
  shows "\<exists>v ids. get_prescription s' (c_prescription_id r) = Inr v \<and>
           v_id v = c_prescription_id r \<and>
           req_patient_file_number req = Some (file_number (v_patient v)) \<and>
           (query_patient s (file_number (v_patient v)) = None \<longrightarrow>
              req_patient_name req = Some (patient_name (v_patient v))) \<and>
           req_doctor_id req = Some (fst (v_doctor v)) \<and>
           (\<exists>u \<in> set (users s). user_id u = fst (v_doctor v) \<and>
                                 username u = snd (v_doctor v) \<and> role u = ''doctor'') \<and>
           req_drugs req = Some (map Some ids) \<and>
           map drug_id (v_prescribed_drugs v) = sort (remdups ids) \<and>
           (map drug_id (v_prescribed_drugs v) = ids \<longleftrightarrow> sorted ids \<and> distinct ids) \<and>
           v_prescribed_drugs v \<noteq> [] \<and>
           set (v_prescribed_drugs v) \<subseteq> set (drugs s) \<and>
           v_status v = ''pending'' \<and> c_status r = ''pending'' \<and>
           v_created_at v = now \<and> c_created_at r = now"
proof -
  from create_prescription_InrD[OF assms(2)]
  obtain req' pname fnum doctor_id drugs_data doctor pat s1 ds p where
    d: "Some req = Some req'"
    and n: "req_patient_name req' = Some pname"
    and f: "req_patient_file_number req' = Some fnum"
    and i: "req_doctor_id req' = Some doctor_id"
    and g: "req_drugs req' = Some drugs_data"
    and q: "query_doctor s doctor_id = Inr (Some doctor)"
    and c: "find_or_create_patient s pname fnum = Some (pat, s1)"
    and v: "validate_drugs s1 drugs_data [] = Inr ds" and ne: "ds \<noteq> []"
    and ins: "insert_prescription s1 (patient_id pat) (user_id doctor) ds now = Some (p, s')"
    and r: "r = \<lparr>c_prescription_id = prescription_id p, c_status = status p,
                  c_created_at = created_at p\<rparr>"
    by (elim exE conjE)
  have req: "req' = req" using d by simp
  note w = wf_db_find_or_create_patient[OF assms(1) c]
  note vd = validate_drugs_Nil_InrD[OF v]
  have ds: "\<forall>d \<in> set ds. find_drug s1 (drug_id d) = Some d" using vd(2) by simp
  note rb = insert_prescription_readback[OF w(1) ins ds]
  note doc = query_doctor_SomeD[OF q]
  let ?ids = "map drug_id ds"
  let ?loaded = "map (\<lambda>j. the (find_drug s1 j)) (sort (remdups ?ids))"
  have js: "set (sort (remdups ?ids)) = set (map drug_id ds)" by simp
  note bk = readback_drugs[OF ds js]
  have pat: "rel_patient s' p = Some pat"
  proof -
    have "distinct (map patient_id (patients s1))" using w(1) by (simp add: wf_db_def)
    then have "find (\<lambda>y. patient_id y = patient_id pat) (patients s1) = Some pat"
      using w(2) by (rule find_key_distinct)
    then show ?thesis by (simp add: rel_patient_def rb(4,6))
  qed
  have dr: "rel_doctor s' p = Some doctor"
  proof -
    have "distinct (map user_id (users s))" using assms(1) by (simp add: wf_db_def)
    then have "find (\<lambda>y. user_id y = user_id doctor) (users s) = Some doctor"
      using doc by (intro find_key_distinct) simp_all
    then show ?thesis by (simp add: rel_doctor_def rb(3,7) w(4))
  qed
  let ?v = "\<lparr>v_id = prescription_id p, v_patient = pat,
             v_doctor = (user_id doctor, username doctor),
             v_status = status p, v_created_at = created_at p,
             v_prescribed_drugs = ?loaded\<rparr>"
  have row: "query_prescription s' (prescription_id p) = Inr (Some p)"
    using assms(3) rb(1) by (simp add: r query_in_range)
  have get: "get_prescription s' (prescription_id p) = Inr ?v"
    by (simp add: get_prescription_def row rb(2) pat dr)
  have name: "query_patient s fnum = None \<longrightarrow> patient_name pat = pname"
    using c by (auto simp: find_or_create_patient_eq new_patient_def)
  have sub: "set ?loaded \<subseteq> set (drugs s)" using bk(2) vd(2) w(5) by auto
  have nb: "?loaded \<noteq> []" using bk(2) ne by (metis set_empty)
  have u: "\<exists>u \<in> set (users s). user_id u = user_id doctor \<and>
                                 username u = username doctor \<and> role u = ''doctor''"
    using doc by (intro bexI[of _ doctor]) simp_all
  have fn: "req_patient_file_number req = Some (file_number pat)" using f req w(3) by simp
  have nm: "query_patient s (file_number pat) = None \<longrightarrow>
              req_patient_name req = Some (patient_name pat)"
    using name n req w(3) by simp
  have di: "req_doctor_id req = Some (user_id doctor)" using i req doc by simp
  have dl: "req_drugs req = Some (map Some ?ids)" using g req vd(1) by (simp add: comp_def)
  have st: "status p = ''pending''" "created_at p = now" by (rule rb(8), rule rb(9))
  have same: "sort (remdups ?ids) = ?ids \<longleftrightarrow> sorted ?ids \<and> distinct ?ids"
  proof
    assume e: "sort (remdups ?ids) = ?ids"
    have "sorted (sort (remdups ?ids))" "distinct (sort (remdups ?ids))" by simp_all
    then show "sorted ?ids \<and> distinct ?ids" unfolding e by simp
  next
    assume "sorted ?ids \<and> distinct ?ids"
    then show "sort (remdups ?ids) = ?ids" by (simp add: distinct_remdups_id sort_key_id_if_sorted)
  qed
  have ids1: "map drug_id ?loaded = sort (remdups ?ids)" by (rule bk(1))
  have ids2: "map drug_id ?loaded = ?ids \<longleftrightarrow> sorted ?ids \<and> distinct ?ids"
    unfolding ids1 by (rule same)
  show ?thesis
  proof (intro exI[of _ ?v] exI[of _ ?ids] conjI)
    show "get_prescription s' (c_prescription_id r) = Inr ?v" using get by (simp add: r)
    show "v_id ?v = c_prescription_id r" by (simp add: r)
    show "req_patient_file_number req = Some (file_number (v_patient ?v))" using fn by simp
    show "query_patient s (file_number (v_patient ?v)) = None \<longrightarrow>
            req_patient_name req = Some (patient_name (v_patient ?v))" using nm by simp
    show "req_doctor_id req = Some (fst (v_doctor ?v))" using di by simp
    show "\<exists>u \<in> set (users s). user_id u = fst (v_doctor ?v) \<and>
            username u = snd (v_doctor ?v) \<and> role u = ''doctor''" using u by simp
    show "req_drugs req = Some (map Some ?ids)" by (rule dl)
    show "map drug_id (v_prescribed_drugs ?v) = sort (remdups ?ids)"
      unfolding prescription_view.select_convs by (rule ids1)
    show "map drug_id (v_prescribed_drugs ?v) = ?ids \<longleftrightarrow> sorted ?ids \<and> distinct ?ids"
      unfolding prescription_view.select_convs by (rule ids2)
    show "v_prescribed_drugs ?v \<noteq> []"
      unfolding prescription_view.select_convs by (rule nb)
    show "set (v_prescribed_drugs ?v) \<subseteq> set (drugs s)"
      unfolding prescription_view.select_convs by (rule sub)
    show "v_status ?v = ''pending''" using st by simp
    show "c_status r = ''pending''" using st by (simp add: r)
    show "v_created_at ?v = now" using st by simp
    show "c_created_at r = now" using st by (simp add: r)
  qed
qed

theorem create_get_roundtrip_witness:
  "wf_db test_db \<and>
   fst (create_prescription test_db 100 (Some (mk_request ''Jane Smith'' ''JS001'' 1 [2, 1]))) =
     Inr \<lparr>c_prescription_id = 1, c_status = ''pending'', c_created_at = 100\<rparr> \<and>
   (\<exists>v. get_prescription
          (snd (create_prescription test_db 100
                 (Some (mk_request ''Jane Smith'' ''JS001'' 1 [2, 1])))) 1 = Inr v \<and>
        file_number (v_patient v) = ''JS001'' \<and> patient_name (v_patient v) = ''Jane Smith'' \<and>
        v_doctor v = (1, ''testdoc'') \<and>
        map drug_id (v_prescribed_drugs v) = [1, 2] \<and>
        v_status v = ''pending'')"
proof -
  let ?req = "mk_request ''Jane Smith'' ''JS001'' 1 [2, 1]"
  let ?r = "\<lparr>c_prescription_id = 1, c_status = ''pending'', c_created_at = 100\<rparr>"
  have c: "create_prescription test_db 100 (Some ?req) =
             (Inr ?r, snd (create_prescription test_db 100 (Some ?req)))"
    by (simp add: db_eval)
  have k: "int64 (c_prescription_id ?r)" by (simp add: int64_def)
  have q: "query_patient test_db ''JS001'' = None"
    by (simp add: query_patient_def test_db_def)
  have u: "u \<in> set (users test_db) \<Longrightarrow> user_id u = 1 \<Longrightarrow> username u = ''testdoc''" for u
    by (auto simp: test_db_def)
  from create_get_roundtrip[OF wf_db_test_db c k] obtain v ids where
    v: "get_prescription (snd (create_prescription test_db 100 (Some ?req)))
          (c_prescription_id ?r) = Inr v"
      "req_patient_file_number ?req = Some (file_number (v_patient v))"
      "query_patient test_db (file_number (v_patient v)) = None \<longrightarrow>
         req_patient_name ?req = Some (patient_name (v_patient v))"
      "req_doctor_id ?req = Some (fst (v_doctor v))"
      "\<exists>u \<in> set (users test_db). user_id u = fst (v_doctor v) \<and>
           username u = snd (v_doctor v) \<and> role u = ''doctor''"
      "req_drugs ?req = Some (map Some ids)"
      "map drug_id (v_prescribed_drugs v) = sort (remdups ids)"
      "v_status v = ''pending''"
    by (elim exE conjE)
  have f: "file_number (v_patient v) = ''JS001''" using v(2) by (simp add: mk_request_def)
  have n: "patient_name (v_patient v) = ''Jane Smith''"
    using v(3) q f by (simp add: mk_request_def)
  have i: "fst (v_doctor v) = 1" using v(4) by (simp add: mk_request_def)
  then have "snd (v_doctor v) = ''testdoc''" using v(5) u by auto
  then have d: "v_doctor v = (1, ''testdoc'')" using i by (simp add: prod_eq_iff)
  have "map Some ids = map Some [2, 1]" using v(6) by (simp add: mk_request_def)
  then have "ids = [2, 1]" by (rule map_injective) simp
  then have l: "map drug_id (v_prescribed_drugs v) = [1, 2]"
    using v(7) by simp
  have c1: "fst (create_prescription test_db 100 (Some ?req)) = Inr ?r"
    by (subst c) (rule fst_conv)
  have g: "get_prescription (snd (create_prescription test_db 100 (Some ?req))) 1 = Inr v"
    using v(1) by simp
  show ?thesis
  proof (intro conjI exI[of _ v])
    show "wf_db test_db" by (rule wf_db_test_db)
    show "fst (create_prescription test_db 100 (Some ?req)) = Inr ?r" by (rule c1)
    show "get_prescription (snd (create_prescription test_db 100 (Some ?req))) 1 = Inr v"
      by (rule g)
    show "file_number (v_patient v) = ''JS001''" by (rule f)
    show "patient_name (v_patient v) = ''Jane Smith''" by (rule n)
    show "v_doctor v = (1, ''testdoc'')" by (rule d)
    show "map drug_id (v_prescribed_drugs v) = [1, 2]" by (rule l)
    show "v_status v = ''pending''" by (rule v(8))
  qed
qed

section \<open>Drug ids listed more than once\<close>



text \<open>The join rows and the prescription row that a successful request writes.\<close>

lemma create_prescription_association:
  assumes "create_prescription s now (Some (mk_request pname fnum doctor_id ids)) = (Inr r, s')"
  shows "prescription_drug_association s' =
           prescription_drug_association s @ map (Pair (c_prescription_id r)) (remdups ids)"
    and "drugs s' = drugs s"
proof -
  from create_prescription_InrD[OF assms]
  obtain req' pname' fnum' doctor_id' drugs_data doctor pat s1 ds p where
    d: "Some (mk_request pname fnum doctor_id ids) = Some req'"
    and n': "req_patient_name req' = Some pname'"
    and f': "req_patient_file_number req' = Some fnum'"
    and i': "req_doctor_id req' = Some doctor_id'"
    and g: "req_drugs req' = Some drugs_data"
    and q: "query_doctor s doctor_id' = Inr (Some doctor)"
    and fc: "find_or_create_patient s pname' fnum' = Some (pat, s1)"
    and v: "validate_drugs s1 drugs_data [] = Inr ds" and ne: "ds \<noteq> []"
    and ins: "insert_prescription s1 (patient_id pat) (user_id doctor) ds now = Some (p, s')"
    and r: "r = \<lparr>c_prescription_id = prescription_id p, c_status = status p,
                  c_created_at = created_at p\<rparr>"
    by (elim exE conjE)
  have "drugs_data = map Some ids" using d g by (auto simp: mk_request_def)
  then have "map Some ids = map (\<lambda>d. Some (drug_id d)) ds"
    using validate_drugs_Nil_InrD(1)[OF v] by simp
  then have "map Some ids = map Some (map drug_id ds)" by (simp add: comp_def)
  then have ids: "ids = map drug_id ds" by (rule map_injective) simp
  from find_or_create_patient_cases[OF fc]
  have s1: "prescription_drug_association s1 = prescription_drug_association s"
    "drugs s1 = drugs s" by auto
  note i = insert_prescription_SomeD(2)[OF ins]
  show "prescription_drug_association s' =
           prescription_drug_association s @ map (Pair (c_prescription_id r)) (remdups ids)"
    by (subst i) (simp add: s1 r ids)
  show "drugs s' = drugs s" by (subst i) (simp add: s1)
qed





section \<open>Patient resolution over sequences of requests\<close>













lemmas db_eval2 =
  serve_all_def update_prescription_status_def set_status_def add_drug_def
  get_prescription_label_def label_string_def get_dashboard_notifications_def
  pending_prescriptions_def get_drug_prescription_statistics_def

lemma later_request_evaluated:
  "fst (create_prescription
          (serve_all [UpdateStatus 1 (Some \<lparr>req_status = Some ''ready''\<rparr>)]
            (snd (create_prescription test_db 100
               (Some (mk_request ''Jane Smith'' ''JS001'' 1 [1, 2])))))
          200 (Some (mk_request ''J. Smith-Jones'' ''JS001'' 1 [3]))) =
   Inr \<lparr>c_prescription_id = 2, c_status = ''pending'', c_created_at = 200\<rparr>"
  by (simp add: db_eval db_eval2)

section \<open>Updating the status\<close>













section \<open>Labels\<close>










section \<open>Pending notifications\<close>







section \<open>Drug prescription statistics\<close>

lemma fold_upd_last:
  "fold (\<lambda>d m. m(k d \<mapsto> v d)) ds m0 x =
     (case find (\<lambda>d. k d = x) (rev ds) of Some d \<Rightarrow> Some (v d) | None \<Rightarrow> m0 x)"
proof (induction ds arbitrary: m0)
  case Nil
  show ?case by simp
next
  case (Cons d ds)
  have "fold (\<lambda>d m. m(k d \<mapsto> v d)) (d # ds) m0 x =
        fold (\<lambda>d m. m(k d \<mapsto> v d)) ds (m0(k d \<mapsto> v d)) x"
    by (simp only: fold_simps o_apply)
  also have "\<dots> = (case find (\<lambda>d. k d = x) (rev ds) of
                      Some e \<Rightarrow> Some (v e) | None \<Rightarrow> (m0(k d \<mapsto> v d)) x)"
    by (rule Cons.IH)
  also have "\<dots> = (case find (\<lambda>d. k d = x) (rev (d # ds)) of
                      Some e \<Rightarrow> Some (v e) | None \<Rightarrow> m0 x)"
    by (cases "find (\<lambda>d. k d = x) (rev ds)") (simp_all add: find_append)
  finally show ?case .
qed

lemma statistics_eq:
  "get_drug_prescription_statistics s x =
     (case find (\<lambda>d. drug_name d = x) (rev (drugs s)) of
        Some d \<Rightarrow> Some (length (drug_prescriptions s d))
      | None \<Rightarrow> None)"
proof (cases "drugs s = []")
  case True
  then show ?thesis by (simp add: get_drug_prescription_statistics_def)
next
  case False
  then show ?thesis
    by (simp add: get_drug_prescription_statistics_def Let_def fold_upd_last)
qed

lemma drug_prescriptions_length:
  assumes "wf_db s"
  shows "length (drug_prescriptions s d) =
         length (filter (\<lambda>r. snd r = drug_id d) (prescription_drug_association s))"
proof -
  have fk: "\<forall>r \<in> set (prescription_drug_association s).
              fst r \<in> set (map prescription_id (prescriptions s))"
    using assms by (auto simp: wf_db_def list_all_iff)
  have "length (concat (map (\<lambda>(pid, did).
                    if did = drug_id d
                    then (case get_prescription_row s pid of Some p \<Rightarrow> [p] | None \<Rightarrow> [])
                    else []) rows)) =
        length (filter (\<lambda>r. snd r = drug_id d) rows)"
    if "\<forall>r \<in> set rows. fst r \<in> set (map prescription_id (prescriptions s))" for rows
    using that
  proof (induction rows)
    case Nil
    then show ?case by simp
  next
    case (Cons r rows)
    obtain pid did where r: "r = (pid, did)" by (cases r)
    have "get_prescription_row s pid \<noteq> None"
      using Cons.prems r by (auto simp: get_prescription_row_def find_None_iff)
    then obtain p where "get_prescription_row s pid = Some p" by blast
    then show ?case using Cons r by simp
  qed
  from this[OF fk] show ?thesis by (simp add: drug_prescriptions_def)
qed

text \<open>The rows of the join table that name a drug, counted as distinct prescriptions.\<close>

lemma referencing_prescriptions_card:
  assumes "wf_db s"
  shows "card {p \<in> set (prescriptions s).
               (prescription_id p, did) \<in> set (prescription_drug_association s)} =
         length (filter (\<lambda>r. snd r = did) (prescription_drug_association s))"
proof -
  let ?rows = "filter (\<lambda>r. snd r = did) (prescription_drug_association s)"
  let ?P = "{p \<in> set (prescriptions s).
               (prescription_id p, did) \<in> set (prescription_drug_association s)}"
  have d: "distinct (map prescription_id (prescriptions s))"
    and da: "distinct (prescription_drug_association s)"
    and fk: "\<forall>r \<in> set (prescription_drug_association s).
              fst r \<in> set (map prescription_id (prescriptions s))"
    using assms by (auto simp: wf_db_def list_all_iff)
  have inj: "inj_on fst (set ?rows)" by (auto simp: inj_on_def)
  have "distinct ?rows" using da by simp
  then have "distinct (map fst ?rows)" using inj by (simp add: distinct_map)
  then have l: "length ?rows = card (set (map fst ?rows))"
    using distinct_card[of "map fst ?rows"] by simp
  have img: "prescription_id ` ?P = set (map fst ?rows)"
  proof
    show "prescription_id ` ?P \<subseteq> set (map fst ?rows)" by force
    show "set (map fst ?rows) \<subseteq> prescription_id ` ?P"
    proof
      fix pid assume "pid \<in> set (map fst ?rows)"
      then have m: "(pid, did) \<in> set (prescription_drug_association s)" by auto
      then have "pid \<in> set (map prescription_id (prescriptions s))" using fk by force
      then obtain p where "p \<in> set (prescriptions s)" "prescription_id p = pid" by auto
      then show "pid \<in> prescription_id ` ?P" using m by auto
    qed
  qed
  have "inj_on prescription_id (set (prescriptions s))" using d by (simp add: distinct_map)
  then have "inj_on prescription_id ?P" by (rule inj_on_subset) auto
  then have "card (prescription_id ` ?P) = card ?P" by (rule card_image)
  then show ?thesis using l img by simp
qed

lemma find_rev_SomeD:
  "find P (rev ds) = Some e \<Longrightarrow>
     \<exists>before after. ds = before @ e # after \<and> P e \<and> (\<forall>f \<in> set after. \<not> P f)"
proof (induction ds)
  case Nil
  then show ?case by simp
next
  case (Cons d ds)
  show ?case
  proof (cases "find P (rev ds)")
    case None
    then have no: "\<forall>f \<in> set ds. \<not> P f" by (auto simp: find_None_iff)
    from Cons.prems None have "P d" "e = d"
      by (auto simp: find_append split: if_splits)
    then have "d # ds = [] @ e # ds \<and> P e \<and> (\<forall>f \<in> set ds. \<not> P f)" using no by simp
    then show ?thesis by blast
  next
    case (Some x)
    then have "x = e" using Cons.prems by (simp add: find_append)
    with Some Cons.IH obtain before after where
      "ds = before @ e # after" "P e" "\<forall>f \<in> set after. \<not> P f" by blast
    then have "d # ds = (d # before) @ e # after \<and> P e \<and> (\<forall>f \<in> set after. \<not> P f)" by simp
    then show ?thesis by blast
  qed
qed

lemma statistics_unique_name:
  assumes "wf_db s" and "d \<in> set (drugs s)"
    and "\<forall>e \<in> set (drugs s). drug_name e = drug_name d \<longrightarrow> e = d"
  shows "get_drug_prescription_statistics s (drug_name d) =
           Some (length (filter (\<lambda>r. snd r = drug_id d) (prescription_drug_association s)))"
proof -
  have "find (\<lambda>e. drug_name e = drug_name d) (rev (drugs s)) \<noteq> None"
    using assms(2) by (auto simp: find_None_iff)
  then obtain e where e: "find (\<lambda>e. drug_name e = drug_name d) (rev (drugs s)) = Some e"
    by blast
  from find_rev_SomeD[OF this] have "e \<in> set (drugs s)" "drug_name e = drug_name d"
    by auto
  then have "e = d" using assms(3) by blast
  then show ?thesis
    using e by (simp add: statistics_eq drug_prescriptions_length[OF assms(1)])
qed

text \<open>
  C6. On a store that satisfies the schema's constraints, the dictionary of
  \<open>get_drug_prescription_statistics\<close> has one key per drug name of the catalog, also
  for drugs that no prescription references. The value under a name is the number of
  distinct prescriptions that reference the last drug of the catalog with that name:
  drugs that share a name overwrite one another, and a drug whose name is its own is
  mapped to its own count. In particular, starting without prescriptions, after a
  prescription with drugs \<open>d1, d2\<close> and a prescription with drug \<open>d1\<close>, where
  \<open>d1, d2, d3\<close> have names of their own, the result maps \<open>d1\<close> to 2, \<open>d2\<close> to 1 and
  \<open>d3\<close> to 0.
\<close>

theorem drug_prescription_counts:
  assumes "wf_db s"
  shows "dom (get_drug_prescription_statistics s) = drug_name ` set (drugs s) \<and>
         (\<forall>d \<in> set (drugs s). \<exists>before e after.
            drugs s = before @ e # after \<and> drug_name e = drug_name d \<and>
            (\<forall>f \<in> set after. drug_name f \<noteq> drug_name d) \<and>
            get_drug_prescription_statistics s (drug_name d) =
              Some (card {p \<in> set (prescriptions s).
                      (prescription_id p, drug_id e) \<in> set (prescription_drug_association s)})) \<and>
         (\<forall>d \<in> set (drugs s).
            (\<forall>e \<in> set (drugs s). drug_name e = drug_name d \<longrightarrow> e = d) \<longrightarrow>
            get_drug_prescription_statistics s (drug_name d) =
              Some (card {p \<in> set (prescriptions s).
                      (prescription_id p, drug_id d) \<in> set (prescription_drug_association s)})) \<and>
         (prescriptions s = [] \<and> prescription_drug_association s = [] \<and>
          d1 \<in> set (drugs s) \<and> d2 \<in> set (drugs s) \<and> d3 \<in> set (drugs s) \<and>
          distinct [drug_name d1, drug_name d2, drug_name d3] \<and>
          (\<forall>e \<in> set (drugs s). \<forall>d \<in> {d1, d2, d3}. drug_name e = drug_name d \<longrightarrow> e = d) \<and>
          create_prescription s t1 (Some (mk_request n1 f1 doc1 [drug_id d1, drug_id d2]))
            = (Inr r1, s1) \<and>
          create_prescription s1 t2 (Some (mk_request n2 f2 doc2 [drug_id d1])) = (Inr r2, s2)
          \<longrightarrow>
          get_drug_prescription_statistics s2 (drug_name d1) = Some 2 \<and>
          get_drug_prescription_statistics s2 (drug_name d2) = Some 1 \<and>
          get_drug_prescription_statistics s2 (drug_name d3) = Some 0)"
proof (intro conjI ballI impI)
  show "dom (get_drug_prescription_statistics s) = drug_name ` set (drugs s)"
  proof (intro set_eqI iffI)
    fix x assume "x \<in> dom (get_drug_prescription_statistics s)"
    then obtain e where "find (\<lambda>d. drug_name d = x) (rev (drugs s)) = Some e"
      by (auto simp: statistics_eq split: option.splits)
    from find_rev_SomeD[OF this] show "x \<in> drug_name ` set (drugs s)" by auto
  next
    fix x assume "x \<in> drug_name ` set (drugs s)"
    then have "find (\<lambda>d. drug_name d = x) (rev (drugs s)) \<noteq> None"
      by (auto simp: find_None_iff)
    then show "x \<in> dom (get_drug_prescription_statistics s)"
      by (auto simp: statistics_eq)
  qed
next
  fix d assume d: "d \<in> set (drugs s)"
  then have "find (\<lambda>e. drug_name e = drug_name d) (rev (drugs s)) \<noteq> None"
    by (auto simp: find_None_iff)
  then obtain e where e: "find (\<lambda>e. drug_name e = drug_name d) (rev (drugs s)) = Some e"
    by blast
  from find_rev_SomeD[OF e] obtain before after where
    sp: "drugs s = before @ e # after" "drug_name e = drug_name d"
        "\<forall>f \<in> set after. drug_name f \<noteq> drug_name d"
    by blast
  have "get_drug_prescription_statistics s (drug_name d) =
          Some (card {p \<in> set (prescriptions s).
                  (prescription_id p, drug_id e) \<in> set (prescription_drug_association s)})"
    using e by (simp add: statistics_eq drug_prescriptions_length[OF assms]
                  referencing_prescriptions_card[OF assms])
  then show "\<exists>before e after.
            drugs s = before @ e # after \<and> drug_name e = drug_name d \<and>
            (\<forall>f \<in> set after. drug_name f \<noteq> drug_name d) \<and>
            get_drug_prescription_statistics s (drug_name d) =
              Some (card {p \<in> set (prescriptions s).
                      (prescription_id p, drug_id e) \<in> set (prescription_drug_association s)})"
    using sp by blast
next
  fix d assume "d \<in> set (drugs s)"
    and "\<forall>e \<in> set (drugs s). drug_name e = drug_name d \<longrightarrow> e = d"
  then show "get_drug_prescription_statistics s (drug_name d) =
              Some (card {p \<in> set (prescriptions s).
                      (prescription_id p, drug_id d) \<in> set (prescription_drug_association s)})"
    using statistics_unique_name[OF assms] referencing_prescriptions_card[OF assms] by simp
next
  assume a: "prescriptions s = [] \<and> prescription_drug_association s = [] \<and>
          d1 \<in> set (drugs s) \<and> d2 \<in> set (drugs s) \<and> d3 \<in> set (drugs s) \<and>
          distinct [drug_name d1, drug_name d2, drug_name d3] \<and>
          (\<forall>e \<in> set (drugs s). \<forall>d \<in> {d1, d2, d3}. drug_name e = drug_name d \<longrightarrow> e = d) \<and>
          create_prescription s t1 (Some (mk_request n1 f1 doc1 [drug_id d1, drug_id d2]))
            = (Inr r1, s1) \<and>
          create_prescription s1 t2 (Some (mk_request n2 f2 doc2 [drug_id d1])) = (Inr r2, s2)"
  then have c1: "create_prescription s t1 (Some (mk_request n1 f1 doc1 [drug_id d1, drug_id d2]))
            = (Inr r1, s1)"
    and c2: "create_prescription s1 t2 (Some (mk_request n2 f2 doc2 [drug_id d1])) = (Inr r2, s2)"
    and mem: "d1 \<in> set (drugs s)" "d2 \<in> set (drugs s)" "d3 \<in> set (drugs s)"
    and names: "drug_name d1 \<noteq> drug_name d2" "drug_name d1 \<noteq> drug_name d3"
      "drug_name d2 \<noteq> drug_name d3"
    and uniq: "\<forall>e \<in> set (drugs s). \<forall>d \<in> {d1, d2, d3}. drug_name e = drug_name d \<longrightarrow> e = d"
    and empty: "prescription_drug_association s = []"
    by simp_all
  have wf1: "wf_db s1" using wf_db_create_prescription[OF assms, of t1] c1 by (metis snd_conv)
  have wf2: "wf_db s2" using wf_db_create_prescription[OF wf1, of t2] c2 by (metis snd_conv)
  note a1 = create_prescription_association[OF c1]
  note a2 = create_prescription_association[OF c2]
  have dr: "drugs s2 = drugs s" using a1(2) a2(2) by simp
  have inj: "inj_on drug_id (set (drugs s))"
    using assms by (simp add: wf_db_def distinct_map)
  have ids: "drug_id d1 \<noteq> drug_id d2" "drug_id d1 \<noteq> drug_id d3" "drug_id d2 \<noteq> drug_id d3"
    using inj mem names by (auto dest: inj_onD)
  have rows: "prescription_drug_association s2 =
      [(c_prescription_id r1, drug_id d1), (c_prescription_id r1, drug_id d2),
       (c_prescription_id r2, drug_id d1)]"
    using a1(1) a2(1) empty ids(1) by simp
  have st: "get_drug_prescription_statistics s2 (drug_name d) =
           Some (length (filter (\<lambda>r. snd r = drug_id d) (prescription_drug_association s2)))"
    if "d \<in> {d1, d2, d3}" for d
  proof (rule statistics_unique_name[OF wf2])
    show "d \<in> set (drugs s2)" using that mem dr by auto
    show "\<forall>e \<in> set (drugs s2). drug_name e = drug_name d \<longrightarrow> e = d"
      using uniq that dr by auto
  qed
  show "get_drug_prescription_statistics s2 (drug_name d1) = Some 2"
    using st[of d1] ids by (simp add: rows)
  show "get_drug_prescription_statistics s2 (drug_name d2) = Some 1"
    using st[of d2] ids by (simp add: rows)
  show "get_drug_prescription_statistics s2 (drug_name d3) = Some 0"
    using st[of d3] ids by (simp add: rows)
qed

theorem drug_prescription_counts_witness:
  "get_drug_prescription_statistics
     (serve_all [CreatePrescription 100 (Some (mk_request ''John Doe'' ''JD001'' 1 [1, 2])),
                 CreatePrescription 200 (Some (mk_request ''John Doe'' ''JD001'' 1 [1]))]
        test_db) ''Amoxicillin'' = Some 2 \<and>
   get_drug_prescription_statistics
     (serve_all [CreatePrescription 100 (Some (mk_request ''John Doe'' ''JD001'' 1 [1, 2])),
                 CreatePrescription 200 (Some (mk_request ''John Doe'' ''JD001'' 1 [1]))]
        test_db) ''Panadol'' = Some 1 \<and>
   get_drug_prescription_statistics
     (serve_all [CreatePrescription 100 (Some (mk_request ''John Doe'' ''JD001'' 1 [1, 2])),
                 CreatePrescription 200 (Some (mk_request ''John Doe'' ''JD001'' 1 [1]))]
        test_db) ''Lisinopril'' = Some 0 \<and>
   dom (get_drug_prescription_statistics test_db) = {''Amoxicillin'', ''Panadol'', ''Lisinopril''}"
proof -
  let ?d1 = "\<lparr>drug_id = 1, drug_name = ''Amoxicillin'', strength = ''250mg'',
                instructions = ''Take 1 every 8 hours'',
                warnings = ''Allergic reactions possible''\<rparr>"
  let ?d2 = "\<lparr>drug_id = 2, drug_name = ''Panadol'', strength = ''500mg'',
                instructions = ''2 tablets every 4-6 hours'', warnings = ''Max 8 tablets/day''\<rparr>"
  let ?d3 = "\<lparr>drug_id = 3, drug_name = ''Lisinopril'', strength = ''10mg'',
                instructions = ''1 tablet daily'', warnings = ''Monitor blood pressure''\<rparr>"
  let ?q1 = "mk_request ''John Doe'' ''JD001'' 1 [1, 2]"
  let ?q2 = "mk_request ''John Doe'' ''JD001'' 1 [1]"
  let ?s1 = "snd (create_prescription test_db 100 (Some ?q1))"
  let ?s2 = "snd (create_prescription ?s1 200 (Some ?q2))"
  let ?r1 = "\<lparr>c_prescription_id = 1, c_status = ''pending'', c_created_at = 100\<rparr>"
  let ?r2 = "\<lparr>c_prescription_id = 2, c_status = ''pending'', c_created_at = 200\<rparr>"
  have c1: "create_prescription test_db 100
              (Some (mk_request ''John Doe'' ''JD001'' 1 [drug_id ?d1, drug_id ?d2])) = (Inr ?r1, ?s1)"
    by code_simp
  have c2: "create_prescription ?s1 200 (Some (mk_request ''John Doe'' ''JD001'' 1 [drug_id ?d1]))
              = (Inr ?r2, ?s2)"
    by code_simp
  have pre: "prescriptions test_db = [] \<and> prescription_drug_association test_db = [] \<and>
          ?d1 \<in> set (drugs test_db) \<and> ?d2 \<in> set (drugs test_db) \<and> ?d3 \<in> set (drugs test_db) \<and>
          distinct [drug_name ?d1, drug_name ?d2, drug_name ?d3] \<and>
          (\<forall>e \<in> set (drugs test_db). \<forall>d \<in> {?d1, ?d2, ?d3}. drug_name e = drug_name d \<longrightarrow> e = d)"
    by (simp add: test_db_def)
  note t = drug_prescription_counts[OF wf_db_test_db, where ?d1.0 = ?d1 and ?d2.0 = ?d2
      and ?d3.0 = ?d3 and ?t1.0 = 100 and ?n1.0 = "''John Doe''" and ?f1.0 = "''JD001''"
      and ?doc1.0 = 1 and ?r1.0 = ?r1 and ?s1.0 = ?s1 and ?t2.0 = 200
      and ?n2.0 = "''John Doe''" and ?f2.0 = "''JD001''" and ?doc2.0 = 1 and ?r2.0 = ?r2
      and ?s2.0 = ?s2]
  have dm: "dom (get_drug_prescription_statistics test_db) = drug_name ` set (drugs test_db)"
    using t by (rule conjunct1)
  have sc: "get_drug_prescription_statistics ?s2 (drug_name ?d1) = Some 2 \<and>
          get_drug_prescription_statistics ?s2 (drug_name ?d2) = Some 1 \<and>
          get_drug_prescription_statistics ?s2 (drug_name ?d3) = Some 0"
  proof (rule t[THEN conjunct2, THEN conjunct2, THEN conjunct2, THEN mp])
    show "prescriptions test_db = [] \<and> prescription_drug_association test_db = [] \<and>
          ?d1 \<in> set (drugs test_db) \<and> ?d2 \<in> set (drugs test_db) \<and> ?d3 \<in> set (drugs test_db) \<and>
          distinct [drug_name ?d1, drug_name ?d2, drug_name ?d3] \<and>
          (\<forall>e \<in> set (drugs test_db). \<forall>d \<in> {?d1, ?d2, ?d3}. drug_name e = drug_name d \<longrightarrow> e = d) \<and>
          create_prescription test_db 100
              (Some (mk_request ''John Doe'' ''JD001'' 1 [drug_id ?d1, drug_id ?d2])) = (Inr ?r1, ?s1) \<and>
          create_prescription ?s1 200 (Some (mk_request ''John Doe'' ''JD001'' 1 [drug_id ?d1]))
              = (Inr ?r2, ?s2)"
      using pre c1 c2 by (elim conjE) (intro conjI)
  qed
  have s2: "serve_all [CreatePrescription 100 (Some ?q1), CreatePrescription 200 (Some ?q2)]
              test_db = ?s2"
    by (simp add: serve_all_def)
  have im: "drug_name ` set (drugs test_db) = {''Amoxicillin'', ''Panadol'', ''Lisinopril''}"
    by (simp add: test_db_def)
  have nm: "drug_name ?d1 = ''Amoxicillin''" "drug_name ?d2 = ''Panadol''"
    "drug_name ?d3 = ''Lisinopril''" by simp_all
  show ?thesis
    unfolding s2 using sc dm unfolding nm im by (elim conjE) (intro conjI)
qed

text \<open>Two catalog entries with one name: the later entry's count is the one reported.\<close>

lemma shared_name_overwrites:
  "get_drug_prescription_statistics
     (serve_all [CreatePrescription 100 (Some (mk_request ''John Doe'' ''JD001'' 1 [1, 2])),
                 AddDrug (Some \<lparr>req_name = Some ''Amoxicillin'', req_strength = Some ''500mg'',
                                req_instructions = Some ''Take 1 every 12 hours'',
                                req_warnings = Some ''Allergic reactions possible''\<rparr>)]
        test_db) ''Amoxicillin'' = Some 0"
  by code_simp

end
